theory Spec2Isabelle
  imports Complex_Main "HOL-Library.AList"
begin

section \<open>Python values\<close>

text \<open>
  The frame of \<^verbatim>\<open>fairlearn/metrics/_metric_frame.py\<close> is dynamically typed: the same
  attribute holds \<^verbatim>\<open>None\<close>, a list of batches or a dict, and \<^verbatim>\<open>_concat_batches\<close>
  dispatches on the run-time type of its argument. One datatype of Python values carries
  the shapes the source tests for. An n-dimensional array is its shape and its row-major
  data; a Series is its name and its values; a DataFrame is its named columns; a dict is
  its items in insertion order.
\<close>

datatype obj =
    ONone
  | OInt int
  | OStr string
  | OList "obj list"
  | OArray "nat list" "obj list"
  | OSeries obj "obj list"
  | OFrame "(obj \<times> obj list) list"
  | ODict "(obj \<times> obj) list"

datatype pytype = TNone | TInt | TStr | TList | TNdarray | TSeries | TDataFrame | TDict

fun type_of :: "obj \<Rightarrow> pytype" where
  "type_of ONone = TNone"
| "type_of (OInt _) = TInt"
| "type_of (OStr _) = TStr"
| "type_of (OList _) = TList"
| "type_of (OArray _ _) = TNdarray"
| "type_of (OSeries _ _) = TSeries"
| "type_of (OFrame _) = TDataFrame"
| "type_of (ODict _) = TDict"

text \<open>Every \<^verbatim>\<open>raise\<close> of the source, and the library errors its calls can produce.\<close>

datatype error =
    BadInit
  | NonEmptyInit
  | NotStreaming
  | EmptyBatches
  | DifferentTypes
  | CantConcatenate
  | NeedSameColumns
  | CfBadState
  | SampleParamsAlreadySet
  | SampleParamsExpected
  | InconsistentLength
  | DuplicateFeatureName string
  | SampleParamsNotDict
  | SampleParamKeysNotInFuncDict
  | FeatureListNonScalar
  | ColumnBadName
  | TooManyFeatureDims
  | UnrecognisedMethod
  | TypeError
  | AttributeError
  | KeyError
  | IndexError
  | ValueError
  | AssertionError

fun sequence_sum :: "('e + 'a) list \<Rightarrow> 'e + 'a list" where
  "sequence_sum [] = Inr []"
| "sequence_sum (x # xs) =
     (case x of
        Inl e \<Rightarrow> Inl e
      | Inr v \<Rightarrow> (case sequence_sum xs of Inl e \<Rightarrow> Inl e | Inr vs \<Rightarrow> Inr (v # vs)))"

subsection \<open>Built-ins and library functions the frame calls\<close>

definition frame_nrows :: "(obj \<times> obj list) list \<Rightarrow> nat" where
  "frame_nrows cols = (case cols of [] \<Rightarrow> 0 | (_, c) # _ \<Rightarrow> length c)"

text \<open>Python's \<^verbatim>\<open>len\<close>.\<close>

fun py_len :: "obj \<Rightarrow> error + nat" where
  "py_len ONone = Inl TypeError"
| "py_len (OInt _) = Inl TypeError"
| "py_len (OStr s) = Inr (length s)"
| "py_len (OList xs) = Inr (length xs)"
| "py_len (OArray sh _) = (case sh of [] \<Rightarrow> Inl TypeError | n # _ \<Rightarrow> Inr n)"
| "py_len (OSeries _ xs) = Inr (length xs)"
| "py_len (OFrame cols) = Inr (frame_nrows cols)"
| "py_len (ODict kvs) = Inr (length kvs)"

text \<open>
  \<^verbatim>\<open>sklearn.utils.check_consistent_length(*arrays)\<close>: the arguments that are \<^verbatim>\<open>None\<close>
  are skipped, the number of samples of each other one is its \<^verbatim>\<open>shape[0]\<close> or its
  \<^verbatim>\<open>len\<close> (for a dict, the number of keys), and more than one distinct number is an
  error.
\<close>

definition num_samples :: "obj \<Rightarrow> error + nat" where
  "num_samples x = py_len x"

definition check_consistent_length :: "obj list \<Rightarrow> error + unit" where
  "check_consistent_length arrays =
     (case sequence_sum (map num_samples (filter (\<lambda>X. X \<noteq> ONone) arrays)) of
        Inl e \<Rightarrow> Inl e
      | Inr lengths \<Rightarrow>
          if length (remdups lengths) > 1 then Inl InconsistentLength else Inr ())"

text \<open>
  \<^verbatim>\<open>numpy.asarray\<close> on a list gives all elements one type: where numbers stand next to
  strings, the numbers become the strings of their decimal digits (\<^verbatim>\<open>str\<close>). A list
  that holds anything else (\<^verbatim>\<open>None\<close>, a nested sequence after a scalar) keeps its
  elements as they are, in an array of objects.
\<close>

function string_of_nat :: "nat \<Rightarrow> string" where
  "string_of_nat n =
     (if n < 10 then [''0123456789'' ! n]
      else string_of_nat (n div 10) @ [''0123456789'' ! (n mod 10)])"
  by pat_completeness auto
termination
  by (relation "measure id") auto

definition string_of_int :: "int \<Rightarrow> string" where
  "string_of_int i = (if i < 0 then CHR ''-'' # string_of_nat (nat (- i)) else string_of_nat (nat i))"

fun is_int :: "obj \<Rightarrow> bool" where
  "is_int (OInt _) = True"
| "is_int _ = False"

fun is_str :: "obj \<Rightarrow> bool" where
  "is_str (OStr _) = True"
| "is_str _ = False"

fun py_str :: "obj \<Rightarrow> obj" where
  "py_str (OInt i) = OStr (string_of_int i)"
| "py_str x = x"

definition asarray_items :: "obj list \<Rightarrow> obj list" where
  "asarray_items xs =
     (if list_all (\<lambda>x. is_int x \<or> is_str x) xs \<and> list_ex is_int xs \<and> list_ex is_str xs
      then map py_str xs else xs)"

text \<open>\<^verbatim>\<open>numpy.squeeze\<close> on a shape, and \<^verbatim>\<open>numpy.asarray\<close> on the data of a container.\<close>

definition squeeze_shape :: "nat list \<Rightarrow> nat list" where
  "squeeze_shape sh = filter (\<lambda>d. d \<noteq> 1) sh"

fun to_array :: "obj \<Rightarrow> obj" where
  "to_array (OList xs) = OArray [length xs] (asarray_items xs)"
| "to_array (OSeries _ xs) = OArray [length xs] xs"
| "to_array (OArray sh d) = OArray sh d"
| "to_array (OFrame cols) =
     OArray [frame_nrows cols, length cols] (concat (transpose (map snd cols)))"
| "to_array x = OArray [] [x]"

fun array_data :: "obj \<Rightarrow> obj list" where
  "array_data (OArray _ d) = d"
| "array_data (OList xs) = xs"
| "array_data (OSeries _ xs) = xs"
| "array_data x = [x]"

text \<open>
  Modelled from the spec: \<^verbatim>\<open>_convert_to_ndarray_and_squeeze\<close> lives in
  \<^verbatim>\<open>fairlearn/metrics/_input_manipulations.py\<close>, which is not among the sources. The
  spec's flattener takes a label or prediction container and returns a one-dimensional
  array, squeezing any trailing singleton dimension. A flat list or a Series is already
  one-dimensional.
\<close>

fun squeeze_trailing :: "nat list \<Rightarrow> nat list" where
  "squeeze_trailing [] = [1]"
| "squeeze_trailing [n] = [n]"
| "squeeze_trailing (n # ns) =
     (if last ns = 1 then squeeze_trailing (n # butlast ns) else n # ns)"

definition convert_to_ndarray_and_squeeze :: "obj \<Rightarrow> obj" where
  "convert_to_ndarray_and_squeeze target =
     (case to_array target of
        OArray sh d \<Rightarrow> OArray (squeeze_trailing sh) d
      | x \<Rightarrow> x)"

text \<open>
  \<^verbatim>\<open>numpy.concatenate\<close> along the first axis: every array has at least one dimension
  and all agree on the other dimensions.
\<close>

fun array_shape :: "obj \<Rightarrow> nat list" where
  "array_shape (OArray sh _) = sh"
| "array_shape _ = []"

definition np_concatenate :: "obj list \<Rightarrow> error + obj" where
  "np_concatenate arrs =
     (case arrs of
        [] \<Rightarrow> Inl ValueError
      | a # _ \<Rightarrow>
          if list_all (\<lambda>b. array_shape b \<noteq> [] \<and> tl (array_shape b) = tl (array_shape a)) arrs
          then Inr (OArray (sum_list (map (\<lambda>b. hd (array_shape b)) arrs) # tl (array_shape a))
                      (concat (map array_data arrs)))
          else Inl ValueError)"

fun list_items :: "obj \<Rightarrow> obj list" where
  "list_items (OList xs) = xs"
| "list_items _ = []"

text \<open>\<^verbatim>\<open>d[k]\<close> on a dict.\<close>

fun dict_get :: "obj \<Rightarrow> obj \<Rightarrow> error + obj" where
  "dict_get (ODict kvs) k = (case map_of kvs k of None \<Rightarrow> Inl KeyError | Some v \<Rightarrow> Inr v)"
| "dict_get _ k = Inl TypeError"

fun dict_keys :: "obj \<Rightarrow> obj list" where
  "dict_keys (ODict kvs) = map fst kvs"
| "dict_keys _ = []"

fun dict_values :: "obj \<Rightarrow> error + obj list" where
  "dict_values (ODict kvs) = Inr (map snd kvs)"
| "dict_values _ = Inl AttributeError"

text \<open>\<^verbatim>\<open>xs.append(x)\<close>: only a list has the method.\<close>

fun py_append :: "obj \<Rightarrow> obj \<Rightarrow> error + obj" where
  "py_append (OList xs) x = Inr (OList (xs @ [x]))"
| "py_append _ x = Inl AttributeError"


section \<open>The streaming accumulator\<close>

text \<open>
  \<^verbatim>\<open>_concat_batches\<close>. The type of the first batch decides the branch, after the check
  that all batches have that type. A dict is concatenated key by key, over the keys of
  the first batch, each \<^verbatim>\<open>batch[k]\<close> raising \<^verbatim>\<open>KeyError\<close> where the key is missing.
  The DataFrame branch asserts \<^verbatim>\<open>all([col_nums == df.columns for df in batches])\<close>:
  each comparison is an element-wise boolean array, whose truth value exists only for
  a single column.
\<close>

definition same_columns :: "obj list \<Rightarrow> obj list \<Rightarrow> error + bool" where
  "same_columns col_nums cols =
     (if length col_nums \<noteq> length cols then Inl ValueError
      else if length cols > 1 then Inl ValueError
      else Inr (cols \<noteq> [] \<and> col_nums = cols))"

fun frame_columns :: "obj \<Rightarrow> (obj \<times> obj list) list" where
  "frame_columns (OFrame cols) = cols"
| "frame_columns _ = []"

definition pd_concat :: "obj \<Rightarrow> obj list \<Rightarrow> obj" where
  "pd_concat b0 batches =
     OFrame (map (\<lambda>name. (name, concat (map (\<lambda>df. case map_of (frame_columns df) name of
                                                         None \<Rightarrow> [] | Some c \<Rightarrow> c) batches)))
                 (map fst (frame_columns b0)))"

function concat_batches :: "obj list \<Rightarrow> error + obj" where
  "concat_batches [] = Inl EmptyBatches"
| "concat_batches (b0 # bs) =
     (if \<not> list_all (\<lambda>arr. type_of arr = type_of b0) (b0 # bs) then Inl DifferentTypes
      else case type_of b0 of
        TNdarray \<Rightarrow> np_concatenate (b0 # bs)
      | TList \<Rightarrow> Inr (OList (concat (map list_items (b0 # bs))))
      | TDataFrame \<Rightarrow>
          (case sequence_sum (map (\<lambda>df. same_columns (map fst (frame_columns b0)) (map fst (frame_columns df))) (b0 # bs)) of
             Inl e \<Rightarrow> Inl e
           | Inr oks \<Rightarrow> if list_all id oks then Inr (pd_concat b0 (b0 # bs)) else Inl NeedSameColumns)
      | TDict \<Rightarrow>
          (case sequence_sum
                  (map (\<lambda>k. case sequence_sum (map (\<lambda>batch. dict_get batch k) (b0 # bs)) of
                              Inl e \<Rightarrow> Inl e
                            | Inr vs \<Rightarrow> (case concat_batches vs of Inl e \<Rightarrow> Inl e | Inr r \<Rightarrow> Inr (k, r)))
                       (dict_keys b0)) of
             Inl e \<Rightarrow> Inl e
           | Inr kvs \<Rightarrow> Inr (ODict kvs))
      | _ \<Rightarrow> Inl CantConcatenate)"
  by pat_completeness auto
termination
proof (relation "measure (\<lambda>batches. sum_list (map size batches))")
  show "wf (measure (\<lambda>batches. sum_list (map size batches)))" by simp
next
  fix b0 :: obj and bs x2 k vs
  assume seq: "sequence_sum (map (\<lambda>batch. dict_get batch k) (b0 # bs)) = Inr vs"
  have smaller: "size v < size b" if "dict_get b k = Inr v" for b v
  proof (cases b)
    case (ODict kvs)
    with that have "map_of kvs k = Some v" by (simp split: option.splits)
    then have "(k, v) \<in> set kvs" by (rule map_of_SomeD)
    then have "size v < size_list (size_prod size size) kvs"
      by (induction kvs) auto
    with ODict show ?thesis by simp
  qed (use that in simp_all)
  have "sequence_sum (map (\<lambda>batch. dict_get batch k) batches) = Inr ws \<Longrightarrow> batches \<noteq> [] \<Longrightarrow>
        sum_list (map size ws) < sum_list (map size batches)" for batches ws
  proof (induction batches arbitrary: ws)
    case Nil
    then show ?case by simp
  next
    case (Cons b rest)
    from Cons.prems(1) obtain v us where v: "dict_get b k = Inr v"
      and us: "sequence_sum (map (\<lambda>batch. dict_get batch k) rest) = Inr us" and ws: "ws = v # us"
      by (auto split: sum.splits)
    have lt: "size v < size b" using v by (rule smaller)
    show ?case
    proof (cases "rest = []")
      case True
      with us ws lt show ?thesis by simp
    next
      case False
      with Cons.IH [OF us] ws lt show ?thesis by simp
    qed
  qed
  from this [OF seq] have "sum_list (map size vs) < sum_list (map size (b0 # bs))" by simp
  then show "(vs, b0 # bs) \<in> measure (\<lambda>batches. sum_list (map size batches))" by simp
qed


section \<open>Metric functions and their containers\<close>

text \<open>
  A metric function is opaque: it is called as \<^verbatim>\<open>fn(y_true, y_pred, **sample_params)\<close>
  on one-dimensional arrays and returns a number. The metric of a frame is one callable
  (with its \<^verbatim>\<open>__name__\<close>) or a dict of callables.
\<close>

type_synonym metric_fn = "obj list \<Rightarrow> obj list \<Rightarrow> (string \<times> obj list) list \<Rightarrow> real"

datatype metric_t = Callable string metric_fn | MetricDict "(string \<times> metric_fn) list"

record function_container =
  fc_func :: metric_fn
  fc_name :: string
  fc_sample_params :: "(string \<times> obj list) list"

fun param_item :: "obj \<times> obj \<Rightarrow> error + string \<times> obj list" where
  "param_item (OStr k, v) = Inr (k, array_data v)"
| "param_item _ = Inl SampleParamsNotDict"

text \<open>
  Modelled from the spec: \<^verbatim>\<open>FunctionContainer\<close> lives in
  \<^verbatim>\<open>fairlearn/metrics/_function_container.py\<close>, which is not among the sources. The spec
  (4.2): the parameters bound at construction are a mapping of string to array, and a
  non-mapping is rejected (\<^verbatim>\<open>InvalidSampleParams\<close>); \<^verbatim>\<open>evaluate_all\<close> calls the function on
  the whole dataset with the bound parameters; \<^verbatim>\<open>evaluate\<close> calls it on the subset a
  boolean mask selects, the same mask slicing the labels, the predictions and every
  bound parameter array.
\<close>

definition FunctionContainer :: "metric_fn \<Rightarrow> string \<Rightarrow> obj \<Rightarrow> error + function_container" where
  "FunctionContainer func name sample_params =
     (case sample_params of
        ONone \<Rightarrow> Inr \<lparr>fc_func = func, fc_name = name, fc_sample_params = []\<rparr>
      | ODict kvs \<Rightarrow>
          (case sequence_sum (map param_item kvs) of
             Inl e \<Rightarrow> Inl e
           | Inr ps \<Rightarrow> Inr \<lparr>fc_func = func, fc_name = name, fc_sample_params = ps\<rparr>)
      | _ \<Rightarrow> Inl SampleParamsNotDict)"

definition mask_select :: "'a list \<Rightarrow> bool list \<Rightarrow> 'a list" where
  "mask_select xs msk = map fst (filter snd (zip xs msk))"

definition evaluate_all :: "function_container \<Rightarrow> obj \<Rightarrow> obj \<Rightarrow> real" where
  "evaluate_all fc y_true y_pred =
     fc_func fc (array_data y_true) (array_data y_pred) (fc_sample_params fc)"

definition evaluate :: "function_container \<Rightarrow> obj \<Rightarrow> obj \<Rightarrow> bool list \<Rightarrow> real" where
  "evaluate fc y_true y_pred msk =
     fc_func fc (mask_select (array_data y_true) msk) (mask_select (array_data y_pred) msk)
       (map (\<lambda>(name, value). (name, mask_select value msk)) (fc_sample_params fc))"

section \<open>The feature normalizer\<close>

record group_feature =
  gf_name :: string
  classes :: "obj list"
  raw_feature :: "obj list"

text \<open>
  The classes of a column are its distinct values in increasing order: numbers by
  value, strings by the code points of their characters. Values that are not all
  numbers or all strings have no order, and sorting them is a \<^verbatim>\<open>TypeError\<close>.
\<close>

fun str_le :: "string \<Rightarrow> string \<Rightarrow> bool" where
  "str_le [] t = True"
| "str_le (a # u) [] = False"
| "str_le (a # u) (b # t) = ((of_char a :: nat) < of_char b \<or> (a = b \<and> str_le u t))"

fun obj_le :: "obj \<Rightarrow> obj \<Rightarrow> bool" where
  "obj_le (OInt a) (OInt b) = (a \<le> b)"
| "obj_le (OStr a) (OStr b) = str_le a b"
| "obj_le _ _ = True"

fun insert_sorted :: "obj \<Rightarrow> obj list \<Rightarrow> obj list" where
  "insert_sorted x [] = [x]"
| "insert_sorted x (y # ys) = (if obj_le x y then x # y # ys else y # insert_sorted x ys)"

definition sorted_unique :: "obj list \<Rightarrow> error + obj list" where
  "sorted_unique vals =
     (if list_all is_int vals \<or> list_all is_str vals
      then Inr (foldr insert_sorted (remdups vals) [])
      else Inl TypeError)"

text \<open>
  Modelled from the spec: \<^verbatim>\<open>GroupFeature\<close> lives in
  \<^verbatim>\<open>fairlearn/metrics/_group_feature.py\<close>, which is not among the sources. The spec (3,
  4.1): a feature has a name, the ordered set of the distinct values of its column
  (deduplicated, first-seen or sorted: sorted here), and a mask per class; the name is
  the explicit name of the column when there is one, and \<^verbatim>\<open>base_name\<close> followed by the
  index otherwise; an explicit name that is not a string is rejected
  (\<^verbatim>\<open>InvalidColumnName\<close>). The classes are found first, the name after.
\<close>

definition GroupFeature :: "string \<Rightarrow> obj \<Rightarrow> nat \<Rightarrow> string option \<Rightarrow> error + group_feature" where
  "GroupFeature base_name feature_vector index name =
     (let vals = array_data feature_vector in
      case sorted_unique vals of
        Inl e \<Rightarrow> Inl e
      | Inr cls \<Rightarrow>
          (let mk = (\<lambda>n. \<lparr>gf_name = n, classes = cls, raw_feature = vals\<rparr>)
           in case name of
                Some n \<Rightarrow> Inr (mk n)
              | None \<Rightarrow>
                  (case feature_vector of
                     OSeries (OStr n) _ \<Rightarrow> Inr (mk n)
                   | OSeries ONone _ \<Rightarrow> Inr (mk (base_name @ string_of_nat index))
                   | OSeries _ _ \<Rightarrow> Inl ColumnBadName
                   | _ \<Rightarrow> Inr (mk (base_name @ string_of_nat index)))))"

definition get_mask_for_class :: "group_feature \<Rightarrow> obj \<Rightarrow> bool list" where
  "get_mask_for_class f c = map (\<lambda>v. v = c) (raw_feature f)"

text \<open>\<^verbatim>\<open>numpy.isscalar\<close>: numbers and strings; \<^verbatim>\<open>None\<close> and containers are not scalars.\<close>

fun np_isscalar :: "obj \<Rightarrow> bool" where
  "np_isscalar (OInt _) = True"
| "np_isscalar (OStr _) = True"
| "np_isscalar _ = False"

text \<open>
  One column of a DataFrame, as \<^verbatim>\<open>_process_features\<close> treats it: the name must be a
  string, the length that of the sample array.
\<close>

definition process_column :: "string \<Rightarrow> obj \<Rightarrow> nat \<times> obj \<times> obj list \<Rightarrow> error + group_feature" where
  "process_column base_name sample_array icol =
     (case icol of (i, col_name, vals) \<Rightarrow>
        (case col_name of
           OStr _ \<Rightarrow>
             (case check_consistent_length [OSeries col_name vals, sample_array] of
                Inl e \<Rightarrow> Inl e
              | Inr _ \<Rightarrow> GroupFeature base_name (OSeries col_name vals) i None)
         | _ \<Rightarrow> Inl ColumnBadName))"

definition process_frame :: "string \<Rightarrow> obj \<Rightarrow> (obj \<times> obj list) list \<Rightarrow> error + group_feature list" where
  "process_frame base_name sample_array cols =
     sequence_sum (map (process_column base_name sample_array) (zip [0..<length cols] cols))"

text \<open>
  \<^verbatim>\<open>pandas.DataFrame.from_dict\<close> on a dict of one-dimensional arrays: one column per
  key, all of one length.
\<close>

fun dict_column :: "obj \<times> obj \<Rightarrow> error + obj \<times> obj list" where
  "dict_column (k, OList xs) = Inr (k, xs)"
| "dict_column (k, OSeries _ xs) = Inr (k, xs)"
| "dict_column (k, OArray sh d) = (if length sh = 1 then Inr (k, d) else Inl ValueError)"
| "dict_column (k, _) = Inl ValueError"

definition frame_from_dict :: "(obj \<times> obj) list \<Rightarrow> error + (obj \<times> obj list) list" where
  "frame_from_dict kvs =
     (case sequence_sum (map dict_column kvs) of
        Inl e \<Rightarrow> Inl e
      | Inr cols \<Rightarrow>
          if length (remdups (map (\<lambda>c. length (snd c)) cols)) > 1 then Inl ValueError
          else Inr cols)"

text \<open>Column \<open>i\<close> of a two-dimensional array of shape \<open>(n, m)\<close>: \<^verbatim>\<open>f_arr[:, i]\<close>.\<close>

definition array_column :: "nat \<Rightarrow> nat \<Rightarrow> obj list \<Rightarrow> nat \<Rightarrow> obj" where
  "array_column n m d i = OArray [n] (map (\<lambda>r. d ! (r * m + i)) [0..<n])"

definition process_array_column :: "string \<Rightarrow> obj \<Rightarrow> nat \<Rightarrow> nat \<Rightarrow> obj list \<Rightarrow> nat \<Rightarrow> error + group_feature" where
  "process_array_column base_name sample_array n m d i =
     (case check_consistent_length [array_column n m d i, sample_array] of
        Inl e \<Rightarrow> Inl e
      | Inr _ \<Rightarrow> GroupFeature base_name (array_column n m d i) i None)"

text \<open>
  \<^verbatim>\<open>_process_features\<close>. The branches follow the source: Series, DataFrame, list, dict,
  and anything else through \<^verbatim>\<open>numpy.asarray\<close> with \<^verbatim>\<open>dtype=object\<close>, which converts no
  element. The list branch looks at \<^verbatim>\<open>features[0]\<close> only; when that is a scalar the
  list goes through \<^verbatim>\<open>numpy.asarray\<close> and is a one-dimensional array (a list that
  starts with a scalar and holds a sequence later gives a one-dimensional object array
  in the NumPy releases that still have \<^verbatim>\<open>numpy.object\<close>, which the source uses).
\<close>

definition process_features :: "string \<Rightarrow> obj \<Rightarrow> obj \<Rightarrow> error + group_feature list" where
  "process_features base_name features sample_array =
     (case features of
        OSeries nm vals \<Rightarrow>
          (case check_consistent_length [features, sample_array] of
             Inl e \<Rightarrow> Inl e
           | Inr _ \<Rightarrow>
               (case GroupFeature base_name features 0 None of
                  Inl e \<Rightarrow> Inl e
                | Inr f \<Rightarrow> Inr [f]))
      | OFrame cols \<Rightarrow> process_frame base_name sample_array cols
      | OList xs \<Rightarrow>
          (case xs of
             [] \<Rightarrow> Inl IndexError
           | x # _ \<Rightarrow>
               if np_isscalar x then
                 (let f_arr = OArray [length xs] (asarray_items xs) in
                  case check_consistent_length [f_arr, sample_array] of
                    Inl e \<Rightarrow> Inl e
                  | Inr _ \<Rightarrow>
                      (case GroupFeature base_name f_arr 0 None of
                         Inl e \<Rightarrow> Inl e
                       | Inr f \<Rightarrow> Inr [f]))
               else Inl FeatureListNonScalar)
      | ODict kvs \<Rightarrow>
          (case frame_from_dict kvs of
             Inl e \<Rightarrow> Inl e
           | Inr cols \<Rightarrow> process_frame base_name sample_array cols)
      | _ \<Rightarrow>
          (let f_arr = to_array features;
               sh = squeeze_shape (array_shape f_arr);
               d = array_data f_arr
           in if length sh = 1 then
                (case check_consistent_length [OArray sh d, sample_array] of
                   Inl e \<Rightarrow> Inl e
                 | Inr _ \<Rightarrow>
                     (case GroupFeature base_name (OArray sh d) 0 None of
                        Inl e \<Rightarrow> Inl e
                      | Inr f \<Rightarrow> Inr [f]))
              else if length sh = 2 then
                sequence_sum (map (process_array_column base_name sample_array (sh ! 0) (sh ! 1) d)
                                  [0..<sh ! 1])
              else Inl TooManyFeatureDims))"


section \<open>Result tables\<close>

text \<open>
  A cell of a result table holds the number a metric function returned, or nothing
  (pandas' NaN). A row label is the tuple of class values of the row, a unary tuple for
  a single-level index. A Series indexed by subgroups is a list of labelled cells; a
  DataFrame is its row index and, per function name, the Series of that column. The
  results the frame returns are a scalar, a Series indexed by subgroups, a Series
  indexed by function names, or a DataFrame.
\<close>

type_synonym cell = "real option"
type_synonym rowkey = "obj list"
type_synonym 'c series = "(rowkey \<times> 'c) list"
type_synonym 'c dframe = "rowkey list \<times> (string \<times> 'c series) list"

datatype 'c result =
    RValue 'c
  | RSeries "'c series"
  | RFuncs "(string \<times> 'c) list"
  | RFrame "'c dframe"

text \<open>
  The calls of the wrapped metric functions, in order: the name of the function and the
  mask it was evaluated over (no mask for \<^verbatim>\<open>evaluate_all\<close>). This is the function-call
  counter of the spec's idempotence property; the code itself does not keep it.
\<close>

type_synonym call_log = "(string \<times> bool list option) list"

section \<open>The grouping and masking engine\<close>

definition mask_from_tuple :: "obj list \<Rightarrow> group_feature list \<Rightarrow> error + bool list" where
  "mask_from_tuple index_tuple feature_list =
     (if length index_tuple \<noteq> length feature_list then Inl AssertionError
      else case zip index_tuple feature_list of
             [] \<Rightarrow> Inl IndexError
           | (c, f) # rest \<Rightarrow>
               Inr (fold (\<lambda>(c, f) result. map2 (\<and>) result (get_mask_for_class f c)) rest
                         (get_mask_for_class f c)))"

text \<open>
  The row index: the classes of the only feature, or \<^verbatim>\<open>MultiIndex.from_product\<close> of the
  classes of all of them, the first feature outermost; pandas refuses a product of no
  levels.
\<close>

definition row_index :: "group_feature list \<Rightarrow> error + rowkey list" where
  "row_index rows =
     (case rows of
        [] \<Rightarrow> Inl ValueError
      | [f] \<Rightarrow> Inr (map (\<lambda>c. [c]) (classes f))
      | _ \<Rightarrow> Inr (product_lists (map classes rows)))"

text \<open>
  The inner loop of \<^verbatim>\<open>_compute_dataframe_from_rows\<close>: one column, row by row. The
  warning for an index of more than 20 rows goes to the logger and changes no value; the
  frame does not record it.
\<close>

fun column_cells ::
  "string \<Rightarrow> function_container \<Rightarrow> obj \<Rightarrow> obj \<Rightarrow> group_feature list \<Rightarrow> rowkey list \<Rightarrow>
   call_log \<Rightarrow> (error + cell series) \<times> call_log" where
  "column_cells func_name fc y_true y_pred rows [] lg = (Inr [], lg)"
| "column_cells func_name fc y_true y_pred rows (row_curr # rest) lg =
     (case mask_from_tuple row_curr rows of
        Inl e \<Rightarrow> (Inl e, lg)
      | Inr msk \<Rightarrow>
          if True \<in> set msk then
            (case column_cells func_name fc y_true y_pred rows rest (lg @ [(func_name, Some msk)]) of
               (Inl e, lg') \<Rightarrow> (Inl e, lg')
             | (Inr cs, lg') \<Rightarrow> (Inr ((row_curr, Some (evaluate fc y_true y_pred msk)) # cs), lg'))
          else
            (case column_cells func_name fc y_true y_pred rows rest lg of
               (Inl e, lg') \<Rightarrow> (Inl e, lg')
             | (Inr cs, lg') \<Rightarrow> (Inr ((row_curr, None) # cs), lg')))"

text \<open>The outer loop, over the functions of \<^verbatim>\<open>func_dict\<close> in insertion order.\<close>

fun table_columns ::
  "(string \<times> function_container) list \<Rightarrow> obj \<Rightarrow> obj \<Rightarrow> group_feature list \<Rightarrow> rowkey list \<Rightarrow>
   call_log \<Rightarrow> (error + (string \<times> cell series) list) \<times> call_log" where
  "table_columns [] y_true y_pred rows idx lg = (Inr [], lg)"
| "table_columns ((func_name, fc) # rest) y_true y_pred rows idx lg =
     (case column_cells func_name fc y_true y_pred rows idx lg of
        (Inl e, lg') \<Rightarrow> (Inl e, lg')
      | (Inr col, lg') \<Rightarrow>
          (case table_columns rest y_true y_pred rows idx lg' of
             (Inl e, lg'') \<Rightarrow> (Inl e, lg'')
           | (Inr cols, lg'') \<Rightarrow> (Inr ((func_name, col) # cols), lg'')))"

definition compute_dataframe_from_rows ::
  "(string \<times> function_container) list \<Rightarrow> obj \<Rightarrow> obj \<Rightarrow> group_feature list \<Rightarrow> call_log \<Rightarrow>
   (error + cell dframe) \<times> call_log" where
  "compute_dataframe_from_rows func_dict y_true y_pred rows lg =
     (case row_index rows of
        Inl e \<Rightarrow> (Inl e, lg)
      | Inr idx \<Rightarrow>
          (case table_columns func_dict y_true y_pred rows idx lg of
             (Inl e, lg') \<Rightarrow> (Inl e, lg')
           | (Inr cols, lg') \<Rightarrow> (Inr (idx, cols), lg')))"

definition compute_overall ::
  "(string \<times> function_container) list \<Rightarrow> obj \<Rightarrow> obj \<Rightarrow> group_feature list option \<Rightarrow> call_log \<Rightarrow>
   (error + cell result) \<times> call_log" where
  "compute_overall func_dict y_true y_pred cf_list lg =
     (case cf_list of
        None \<Rightarrow>
          (Inr (RFuncs (map (\<lambda>(func_name, fc). (func_name, Some (evaluate_all fc y_true y_pred))) func_dict)),
           lg @ map (\<lambda>(func_name, fc). (func_name, None)) func_dict)
      | Some cfs \<Rightarrow>
          (case compute_dataframe_from_rows func_dict y_true y_pred cfs lg of
             (Inl e, lg') \<Rightarrow> (Inl e, lg')
           | (Inr df, lg') \<Rightarrow> (Inr (RFrame df), lg')))"

definition compute_by_group ::
  "(string \<times> function_container) list \<Rightarrow> obj \<Rightarrow> obj \<Rightarrow> group_feature list \<Rightarrow>
   group_feature list option \<Rightarrow> call_log \<Rightarrow> (error + cell dframe) \<times> call_log" where
  "compute_by_group func_dict y_true y_pred sf_list cf_list lg =
     compute_dataframe_from_rows func_dict y_true y_pred
       (case cf_list of None \<Rightarrow> sf_list | Some cfs \<Rightarrow> cfs @ sf_list) lg"

section \<open>The frame\<close>

text \<open>
  The attributes of a \<^verbatim>\<open>MetricFrame\<close>, each under its name in the source with the prefix
  \<open>attr\<close>, and the call log. Methods take the frame and return it updated, next to
  their value or the error they raised: an exception leaves the assignments made
  before it.
\<close>

record frame =
  attr_s_f :: obj
  attr_c_f :: obj
  attr_s_p :: obj
  attr_streaming :: bool
  attr_metric :: metric_t
  attr_cf_names :: "string list option"
  attr_sf_names :: "string list option"
  attr_y_true :: obj
  attr_y_pred :: obj
  attr_overall :: "cell result option"
  attr_by_group :: "cell dframe option"
  attr_func_dict :: "(string \<times> function_container) list"
  attr_user_supplied_callable :: "bool option"
  calls :: call_log

subsection \<open>\<^verbatim>\<open>_process_functions\<close>\<close>

definition dict_sample_params :: "(string \<times> metric_fn) list \<Rightarrow> obj \<Rightarrow> error + (obj \<times> obj) list" where
  "dict_sample_params fns sample_params =
     (case sample_params of
        ONone \<Rightarrow> Inr []
      | ODict kvs \<Rightarrow>
          if list_all (\<lambda>k. k \<in> set (map (\<lambda>(name, func). OStr name) fns)) (map fst kvs)
          then Inr kvs else Inl SampleParamKeysNotInFuncDict
      | _ \<Rightarrow> Inl SampleParamsNotDict)"

fun containers_loop ::
  "(string \<times> metric_fn) list \<Rightarrow> (obj \<times> obj) list \<Rightarrow> (string \<times> function_container) list \<Rightarrow>
   error + (string \<times> function_container) list" where
  "containers_loop [] s_p func_dict = Inr func_dict"
| "containers_loop ((name, func) # rest) s_p func_dict =
     (case FunctionContainer func name (case map_of s_p (OStr name) of None \<Rightarrow> ONone | Some v \<Rightarrow> v) of
        Inl e \<Rightarrow> Inl e
      | Inr fc \<Rightarrow> containers_loop rest s_p (AList.update (fc_name fc) fc func_dict))"

definition process_functions ::
  "frame \<Rightarrow> metric_t \<Rightarrow> obj \<Rightarrow> (error + (string \<times> function_container) list) \<times> frame" where
  "process_functions s metric sample_params =
     (case metric of
        MetricDict fns \<Rightarrow>
          (let s1 = s\<lparr>attr_user_supplied_callable := Some False\<rparr> in
           case dict_sample_params fns sample_params of
             Inl e \<Rightarrow> (Inl e, s1)
           | Inr s_p \<Rightarrow> (containers_loop fns s_p [], s1))
      | Callable nm func \<Rightarrow>
          (let s1 = s\<lparr>attr_user_supplied_callable := Some True\<rparr> in
           case FunctionContainer func nm sample_params of
             Inl e \<Rightarrow> (Inl e, s1)
           | Inr fc \<Rightarrow> (Inr (AList.update (fc_name fc) fc []), s1)))"

subsection \<open>\<^verbatim>\<open>_compute_metric\<close>\<close>

fun check_duplicates :: "string list \<Rightarrow> string list \<Rightarrow> error + unit" where
  "check_duplicates [] nameset = Inr ()"
| "check_duplicates (name # rest) nameset =
     (if name \<in> set nameset then Inl (DuplicateFeatureName name)
      else check_duplicates rest (name # nameset))"

definition compute_tables ::
  "frame \<Rightarrow> obj \<Rightarrow> obj \<Rightarrow> group_feature list \<Rightarrow> group_feature list option \<Rightarrow> obj \<Rightarrow>
   (error + unit) \<times> frame" where
  "compute_tables s y_t y_p sf_list cf_list s_p =
     (case process_functions s (attr_metric s) s_p of
        (Inl e, s1) \<Rightarrow> (Inl e, s1)
      | (Inr func_dict, s1) \<Rightarrow>
          (let s2 = s1\<lparr>attr_func_dict := func_dict\<rparr> in
           case compute_overall func_dict y_t y_p cf_list (calls s2) of
             (Inl e, lg) \<Rightarrow> (Inl e, s2\<lparr>calls := lg\<rparr>)
           | (Inr ov, lg) \<Rightarrow>
               (let s3 = s2\<lparr>attr_overall := Some ov, calls := lg\<rparr> in
                case compute_by_group func_dict y_t y_p sf_list cf_list (calls s3) of
                  (Inl e, lg') \<Rightarrow> (Inl e, s3\<lparr>calls := lg'\<rparr>)
                | (Inr bg, lg') \<Rightarrow> (Inr (), s3\<lparr>attr_by_group := Some bg, calls := lg'\<rparr>))))"

definition compute_metric ::
  "frame \<Rightarrow> obj \<Rightarrow> obj \<Rightarrow> obj \<Rightarrow> obj \<Rightarrow> obj \<Rightarrow> (error + unit) \<times> frame" where
  "compute_metric s y_t y_p s_f c_f s_p =
     (case process_features ''sensitive_feature_'' s_f y_t of
        Inl e \<Rightarrow> (Inl e, s)
      | Inr sf_list \<Rightarrow>
          (let s1 = s\<lparr>attr_sf_names := Some (map gf_name sf_list), attr_cf_names := None\<rparr> in
           if c_f \<noteq> ONone then
             (case process_features ''control_feature_'' c_f y_t of
                Inl e \<Rightarrow> (Inl e, s1)
              | Inr cf_list \<Rightarrow>
                  (let s2 = s1\<lparr>attr_cf_names := Some (map gf_name cf_list)\<rparr> in
                   case check_duplicates (map gf_name sf_list @ map gf_name cf_list) [] of
                     Inl e \<Rightarrow> (Inl e, s2)
                   | Inr _ \<Rightarrow> compute_tables s2 y_t y_p sf_list (Some cf_list) s_p))
           else
             (case check_duplicates (map gf_name sf_list) [] of
                Inl e \<Rightarrow> (Inl e, s1)
              | Inr _ \<Rightarrow> compute_tables s1 y_t y_p sf_list None s_p)))"


subsection \<open>The constructor\<close>

fun any_empty :: "obj list \<Rightarrow> error + bool" where
  "any_empty [] = Inr False"
| "any_empty (arg # rest) =
     (if arg = ONone then Inr True
      else case py_len arg of
             Inl e \<Rightarrow> Inl e
           | Inr n \<Rightarrow> if n = 0 then Inr True else any_empty rest)"

definition new_frame :: "metric_t \<Rightarrow> obj \<Rightarrow> obj \<Rightarrow> obj \<Rightarrow> bool \<Rightarrow> frame" where
  "new_frame metric sensitive_features control_features sample_params streaming =
     \<lparr>attr_s_f = sensitive_features, attr_c_f = control_features, attr_s_p = sample_params,
      attr_streaming = streaming, attr_metric = metric, attr_cf_names = None,
      attr_sf_names = None, attr_y_true = ONone, attr_y_pred = ONone, attr_overall = None,
      attr_by_group = None, attr_func_dict = [], attr_user_supplied_callable = None,
      calls = []\<rparr>"

text \<open>
  \<^verbatim>\<open>MetricFrame.__init__\<close>. A constructor that raises leaves no frame. A streaming frame
  starts from empty lists; its control features are \<^verbatim>\<open>None\<close> or an empty list.
\<close>

definition MetricFrame ::
  "metric_t \<Rightarrow> obj \<Rightarrow> obj \<Rightarrow> obj \<Rightarrow> obj \<Rightarrow> obj \<Rightarrow> bool \<Rightarrow> error + frame" where
  "MetricFrame metric y_true y_pred sensitive_features control_features sample_params streaming =
     (case any_empty [y_true, y_pred, sensitive_features] of
        Inl e \<Rightarrow> Inl e
      | Inr no_data \<Rightarrow>
          if no_data \<and> \<not> streaming then Inl BadInit
          else
            (let s = new_frame metric sensitive_features control_features sample_params streaming in
             if \<not> streaming then
               (case check_consistent_length [y_true, y_pred] of
                  Inl e \<Rightarrow> Inl e
                | Inr _ \<Rightarrow>
                    (case compute_metric s (convert_to_ndarray_and_squeeze y_true)
                            (convert_to_ndarray_and_squeeze y_pred)
                            sensitive_features control_features sample_params of
                       (Inl e, s') \<Rightarrow> Inl e
                     | (Inr _, s') \<Rightarrow> Inr s'))
             else if list_ex (\<lambda>acc. acc \<noteq> OList []) [y_true, y_pred, sensitive_features]
                     \<or> \<not> (control_features = ONone \<or> control_features = OList [])
               then Inl NonEmptyInit
             else Inr (s\<lparr>attr_y_true := OList [], attr_y_pred := OList []\<rparr>)))"

subsection \<open>\<^verbatim>\<open>add_data\<close>\<close>

text \<open>
  The three buffers of labels, predictions and sensitive features are appended to right
  after the first length check; the control features and the sample parameters are
  examined after that, and the caches are reset last.
\<close>

definition add_data_control :: "frame \<Rightarrow> obj \<Rightarrow> obj \<Rightarrow> (error + unit) \<times> frame" where
  "add_data_control s y_true control_features =
     (if attr_c_f s \<noteq> ONone then
        (case check_consistent_length [y_true, control_features] of
           Inl e \<Rightarrow> (Inl e, s)
         | Inr _ \<Rightarrow>
             (case py_append (attr_c_f s) control_features of
                Inl e \<Rightarrow> (Inl e, s)
              | Inr c \<Rightarrow> (Inr (), s\<lparr>attr_c_f := c\<rparr>)))
      else if control_features \<noteq> ONone then (Inl CfBadState, s)
      else (Inr (), s))"

definition add_data_sample_params :: "frame \<Rightarrow> obj \<Rightarrow> obj \<Rightarrow> (error + unit) \<times> frame" where
  "add_data_sample_params s y_true sample_params =
     (if sample_params \<noteq> ONone then
        (case dict_values sample_params of
           Inl e \<Rightarrow> (Inl e, s)
         | Inr vals \<Rightarrow>
             (case check_consistent_length (y_true # vals) of
                Inl e \<Rightarrow> (Inl e, s)
              | Inr _ \<Rightarrow>
                  if attr_s_p s = ONone then (Inr (), s\<lparr>attr_s_p := OList [sample_params]\<rparr>)
                  else if type_of (attr_s_p s) = TList then
                    (case py_append (attr_s_p s) sample_params of
                       Inl e \<Rightarrow> (Inl e, s)
                     | Inr p \<Rightarrow> (Inr (), s\<lparr>attr_s_p := p\<rparr>))
                  else (Inl SampleParamsAlreadySet, s)))
      else if type_of (attr_s_p s) = TList then (Inl SampleParamsExpected, s)
      else (Inr (), s))"

definition add_data :: "frame \<Rightarrow> obj \<Rightarrow> obj \<Rightarrow> obj \<Rightarrow> obj \<Rightarrow> obj \<Rightarrow> (error + unit) \<times> frame" where
  "add_data s y_true y_pred sensitive_features control_features sample_params =
     (if \<not> attr_streaming s then (Inl NotStreaming, s)
      else case check_consistent_length [y_true, y_pred, sensitive_features] of
        Inl e \<Rightarrow> (Inl e, s)
      | Inr _ \<Rightarrow>
          (case py_append (attr_y_true s) (convert_to_ndarray_and_squeeze y_true) of
             Inl e \<Rightarrow> (Inl e, s)
           | Inr yt \<Rightarrow>
               (let s1 = s\<lparr>attr_y_true := yt\<rparr> in
                case py_append (attr_y_pred s1) (convert_to_ndarray_and_squeeze y_pred) of
                  Inl e \<Rightarrow> (Inl e, s1)
                | Inr yp \<Rightarrow>
                    (let s2 = s1\<lparr>attr_y_pred := yp\<rparr> in
                     case py_append (attr_s_f s2) sensitive_features of
                       Inl e \<Rightarrow> (Inl e, s2)
                     | Inr sf \<Rightarrow>
                         (let s3 = s2\<lparr>attr_s_f := sf\<rparr> in
                          case add_data_control s3 y_true control_features of
                            (Inl e, s4) \<Rightarrow> (Inl e, s4)
                          | (Inr _, s4) \<Rightarrow>
                              (case add_data_sample_params s4 y_true sample_params of
                                 (Inl e, s5) \<Rightarrow> (Inl e, s5)
                               | (Inr _, s5) \<Rightarrow>
                                   (Inr (), s5\<lparr>attr_overall := None, attr_by_group := None\<rparr>)))))))"

subsection \<open>\<^verbatim>\<open>_compute_streaming_metric\<close>\<close>

text \<open>
  Each buffer of a streaming frame is a Python list of batches. Truth of a value, for
  \<^verbatim>\<open>if self._c_f\<close>: \<^verbatim>\<open>None\<close> and the empty containers are false.
\<close>

definition concat_attr :: "obj \<Rightarrow> error + obj" where
  "concat_attr batches = (case batches of OList bs \<Rightarrow> concat_batches bs | _ \<Rightarrow> Inl TypeError)"

fun py_truthy :: "obj \<Rightarrow> bool" where
  "py_truthy ONone = False"
| "py_truthy (OInt n) = (n \<noteq> 0)"
| "py_truthy (OStr s) = (s \<noteq> [])"
| "py_truthy (OList xs) = (xs \<noteq> [])"
| "py_truthy (ODict kvs) = (kvs \<noteq> [])"
| "py_truthy _ = True"

definition compute_streaming_metric :: "frame \<Rightarrow> (error + unit) \<times> frame" where
  "compute_streaming_metric s =
     (let metric_s_p = (type_of (attr_s_p s) = TDict \<or> attr_s_p s = ONone) in
      case concat_attr (attr_y_true s) of
        Inl e \<Rightarrow> (Inl e, s)
      | Inr y_t \<Rightarrow>
          (case concat_attr (attr_y_pred s) of
             Inl e \<Rightarrow> (Inl e, s)
           | Inr y_p \<Rightarrow>
               (case concat_attr (attr_s_f s) of
                  Inl e \<Rightarrow> (Inl e, s)
                | Inr s_f \<Rightarrow>
                    (case (if py_truthy (attr_c_f s) then concat_attr (attr_c_f s) else Inr ONone) of
                       Inl e \<Rightarrow> (Inl e, s)
                     | Inr c_f \<Rightarrow>
                         (case (if metric_s_p then Inr (attr_s_p s) else concat_attr (attr_s_p s)) of
                            Inl e \<Rightarrow> (Inl e, s)
                          | Inr s_p \<Rightarrow> compute_metric s y_t y_p s_f c_f s_p)))))"

section \<open>Reading the frame\<close>

definition ensure_overall :: "frame \<Rightarrow> (error + unit) \<times> frame" where
  "ensure_overall s = (if attr_overall s = None then compute_streaming_metric s else (Inr (), s))"

definition ensure_by_group :: "frame \<Rightarrow> (error + unit) \<times> frame" where
  "ensure_by_group s = (if attr_by_group s = None then compute_streaming_metric s else (Inr (), s))"

definition control_levels :: "frame \<Rightarrow> (error + string list option) \<times> frame" where
  "control_levels s =
     (case ensure_overall s of
        (Inl e, s') \<Rightarrow> (Inl e, s')
      | (Inr _, s') \<Rightarrow> (Inr (attr_cf_names s'), s'))"

definition sensitive_levels :: "frame \<Rightarrow> (error + string list option) \<times> frame" where
  "sensitive_levels s =
     (case (if attr_sf_names s = None then compute_streaming_metric s else (Inr (), s)) of
        (Inl e, s') \<Rightarrow> (Inl e, s')
      | (Inr _, s') \<Rightarrow> (Inr (attr_sf_names s'), s'))"

text \<open>Truth of a list of level names: \<^verbatim>\<open>None\<close> and the empty list are false.\<close>

fun levels_truthy :: "string list option \<Rightarrow> bool" where
  "levels_truthy None = False"
| "levels_truthy (Some cl) = (cl \<noteq> [])"

text \<open>\<^verbatim>\<open>.iloc[:, 0]\<close>, the first column of a DataFrame, and \<^verbatim>\<open>.iloc[0]\<close>, the first entry.\<close>

fun iloc_col0 :: "cell result \<Rightarrow> error + cell result" where
  "iloc_col0 (RFrame df) = (case snd df of [] \<Rightarrow> Inl IndexError | (m, col) # _ \<Rightarrow> Inr (RSeries col))"
| "iloc_col0 _ = Inl IndexError"

fun iloc_0 :: "cell result \<Rightarrow> error + cell result" where
  "iloc_0 (RFuncs fs) = (case fs of [] \<Rightarrow> Inl IndexError | (m, c) # _ \<Rightarrow> Inr (RValue c))"
| "iloc_0 (RSeries s) = (case s of [] \<Rightarrow> Inl IndexError | (r, c) # _ \<Rightarrow> Inr (RValue c))"
| "iloc_0 (RFrame df) =
     (case fst df of
        [] \<Rightarrow> Inl IndexError
      | r # _ \<Rightarrow> Inr (RFuncs (map (\<lambda>(m, col). (m, case col of [] \<Rightarrow> None | (r, c) # _ \<Rightarrow> c)) (snd df))))"
| "iloc_0 (RValue c) = Inl AttributeError"

definition overall :: "frame \<Rightarrow> (error + cell result) \<times> frame" where
  "overall s =
     (case ensure_overall s of
        (Inl e, s1) \<Rightarrow> (Inl e, s1)
      | (Inr _, s1) \<Rightarrow>
          (case attr_user_supplied_callable s1 of
             None \<Rightarrow> (Inl AttributeError, s1)
           | Some True \<Rightarrow>
               (case control_levels s1 of
                  (Inl e, s2) \<Rightarrow> (Inl e, s2)
                | (Inr cl, s2) \<Rightarrow>
                    (case attr_overall s2 of
                       None \<Rightarrow> (Inl AttributeError, s2)
                     | Some ov \<Rightarrow> (if levels_truthy cl then iloc_col0 ov else iloc_0 ov, s2)))
           | Some False \<Rightarrow>
               (case attr_overall s1 of
                  None \<Rightarrow> (Inl AttributeError, s1)
                | Some ov \<Rightarrow> (Inr ov, s1))))"

definition by_group :: "frame \<Rightarrow> (error + cell result) \<times> frame" where
  "by_group s =
     (case ensure_by_group s of
        (Inl e, s1) \<Rightarrow> (Inl e, s1)
      | (Inr _, s1) \<Rightarrow>
          (case attr_user_supplied_callable s1 of
             None \<Rightarrow> (Inl AttributeError, s1)
           | Some usc \<Rightarrow>
               (case attr_by_group s1 of
                  None \<Rightarrow> (Inl AttributeError, s1)
                | Some bg \<Rightarrow> (if usc then iloc_col0 (RFrame bg) else Inr (RFrame bg), s1))))"


section \<open>The aggregation layer\<close>

text \<open>
  pandas' \<^verbatim>\<open>max\<close> and \<^verbatim>\<open>min\<close> skip the absent cells, and are absent themselves when
  no cell is present.
\<close>

definition present :: "cell list \<Rightarrow> real list" where
  "present cs = [x. Some x \<leftarrow> cs]"

definition nanmax :: "cell list \<Rightarrow> cell" where
  "nanmax cs = (case present cs of [] \<Rightarrow> None | x # xs \<Rightarrow> Some (fold max xs x))"

definition nanmin :: "cell list \<Rightarrow> cell" where
  "nanmin cs = (case present cs of [] \<Rightarrow> None | x # xs \<Rightarrow> Some (fold min xs x))"

text \<open>
  Grouping by the control levels. The index of \<^verbatim>\<open>_by_group\<close> is built with the control
  features first (\<^verbatim>\<open>_compute_by_group\<close>), so the levels named by \<^verbatim>\<open>control_levels\<close> are
  the first \<open>n\<close> components of a row label, \<open>n\<close> the number of control features; a
  group is the rows that agree on them, and the groups come in the order of their first
  row.
\<close>

definition group_keys :: "nat \<Rightarrow> 'c series \<Rightarrow> rowkey list" where
  "group_keys n s = remdups (map (\<lambda>(r, c). take n r) s)"

definition group_cells :: "nat \<Rightarrow> rowkey \<Rightarrow> 'c series \<Rightarrow> 'c list" where
  "group_cells n g s = map snd (filter (\<lambda>(r, c). take n r = g) s)"

definition group_series :: "('c list \<Rightarrow> 'c) \<Rightarrow> nat \<Rightarrow> 'c series \<Rightarrow> 'c series" where
  "group_series agg n s = map (\<lambda>g. (g, agg (group_cells n g s))) (group_keys n s)"

definition groupby_level :: "('c list \<Rightarrow> 'c) \<Rightarrow> nat \<Rightarrow> 'c dframe \<Rightarrow> 'c dframe" where
  "groupby_level agg n df =
     (remdups (map (take n) (fst df)), map (\<lambda>(m, col). (m, group_series agg n col)) (snd df))"

text \<open>
  \<^verbatim>\<open>.max(level=...)\<close> and \<^verbatim>\<open>.min(level=...)\<close> on a Series or a DataFrame: without a level
  the rows collapse to one value per column; with levels they collapse within each
  group; pandas refuses an empty list of levels.
\<close>

fun agg_level :: "('c list \<Rightarrow> 'c) \<Rightarrow> string list option \<Rightarrow> 'c result \<Rightarrow> error + 'c result" where
  "agg_level agg lv (RValue c) = Inl AttributeError"
| "agg_level agg None (RSeries s) = Inr (RValue (agg (map snd s)))"
| "agg_level agg None (RFuncs fs) = Inr (RValue (agg (map snd fs)))"
| "agg_level agg None (RFrame df) = Inr (RFuncs (map (\<lambda>(m, col). (m, agg (map snd col))) (snd df)))"
| "agg_level agg (Some cl) (RSeries s) =
     (if cl = [] then Inl ValueError else Inr (RSeries (group_series agg (length cl) s)))"
| "agg_level agg (Some cl) (RFuncs fs) = Inl ValueError"
| "agg_level agg (Some cl) (RFrame df) =
     (if cl = [] then Inl ValueError else Inr (RFrame (groupby_level agg (length cl) df)))"

text \<open>
  \<^verbatim>\<open>group_max\<close> and \<^verbatim>\<open>group_min\<close> differ in the aggregate only. Without control levels
  the result is a Series over the columns of \<^verbatim>\<open>_by_group\<close>; with them it is
  \<^verbatim>\<open>_by_group.groupby(level=self.control_levels)\<close> aggregated.
\<close>

definition group_extreme :: "(cell list \<Rightarrow> cell) \<Rightarrow> frame \<Rightarrow> (error + cell result) \<times> frame" where
  "group_extreme agg s =
     (case ensure_by_group s of
        (Inl e, s1) \<Rightarrow> (Inl e, s1)
      | (Inr _, s1) \<Rightarrow>
          (case control_levels s1 of
             (Inl e, s2) \<Rightarrow> (Inl e, s2)
           | (Inr cl, s2) \<Rightarrow>
               (case attr_by_group s2 of
                  None \<Rightarrow> (Inl AttributeError, s2)
                | Some bg \<Rightarrow>
                    (let result =
                       (if \<not> levels_truthy cl
                        then RFuncs (map (\<lambda>(m, col). (m, agg (map snd col))) (snd bg))
                        else RFrame (groupby_level agg (length (the cl)) bg))
                     in case attr_user_supplied_callable s2 of
                          None \<Rightarrow> (Inl AttributeError, s2)
                        | Some True \<Rightarrow>
                            (case control_levels s2 of
                               (Inl e, s3) \<Rightarrow> (Inl e, s3)
                             | (Inr cl', s3) \<Rightarrow>
                                 (if levels_truthy cl' then iloc_col0 result else iloc_0 result, s3))
                        | Some False \<Rightarrow> (Inr result, s2)))))"

definition group_max :: "frame \<Rightarrow> (error + cell result) \<times> frame" where
  "group_max s = group_extreme nanmax s"

definition group_min :: "frame \<Rightarrow> (error + cell result) \<times> frame" where
  "group_min s = group_extreme nanmin s"

subsection \<open>Arithmetic with alignment\<close>

text \<open>
  pandas aligns the operands of \<^verbatim>\<open>-\<close> and \<^verbatim>\<open>/\<close> on their labels. A scalar is broadcast.
  A Series indexed by function names meets the columns of a DataFrame of the same name.
  A Series or DataFrame indexed by the control levels meets every row whose label
  starts with its label. A label that finds no partner gives an absent cell.
\<close>

definition key_len :: "'c series \<Rightarrow> nat" where
  "key_len t = (case t of [] \<Rightarrow> 0 | (g, c) # _ \<Rightarrow> length g)"

definition lookup_cell :: "('k \<times> cell) list \<Rightarrow> 'k \<Rightarrow> cell" where
  "lookup_cell t k = (case map_of t k of None \<Rightarrow> None | Some c \<Rightarrow> c)"

definition align_series :: "cell series \<Rightarrow> cell series \<Rightarrow> (cell \<times> cell) series" where
  "align_series s t = map (\<lambda>(r, c). (r, (c, lookup_cell t (take (key_len t) r)))) s"

fun align :: "cell result \<Rightarrow> cell result \<Rightarrow> error + (cell \<times> cell) result" where
  "align a (RValue v) = Inr (map_result (\<lambda>c. (c, v)) a)"
| "align (RSeries s) (RSeries t) = Inr (RSeries (align_series s t))"
| "align (RFuncs fs) (RFuncs gs) = Inr (RFuncs (map (\<lambda>(m, c). (m, (c, lookup_cell gs m))) fs))"
| "align (RFrame df) (RFuncs gs) =
     Inr (RFrame (fst df, map (\<lambda>(m, col). (m, map (\<lambda>(r, c). (r, (c, lookup_cell gs m))) col)) (snd df)))"
| "align (RFrame df) (RFrame dg) =
     Inr (RFrame (fst df,
            map (\<lambda>(m, col). (m, align_series col (case map_of (snd dg) m of None \<Rightarrow> [] | Some t \<Rightarrow> t)))
                (snd df)))"
| "align _ _ = Inl TypeError"

definition sub_cell :: "cell \<times> cell \<Rightarrow> cell" where
  "sub_cell p = (case p of (Some x, Some y) \<Rightarrow> Some (x - y) | _ \<Rightarrow> None)"

definition abs_cell :: "cell \<Rightarrow> cell" where
  "abs_cell c = map_option abs c"

definition result_sub :: "cell result \<Rightarrow> cell result \<Rightarrow> error + cell result" where
  "result_sub a b = (case align a b of Inl e \<Rightarrow> Inl e | Inr p \<Rightarrow> Inr (map_result sub_cell p))"

text \<open>
  The metric values are NumPy floats, as the metrics of scikit-learn return them, and
  their quotient is never an error: a number over zero is \<^verbatim>\<open>inf\<close> or \<^verbatim>\<open>-inf\<close> by its
  sign, zero over zero is NaN, and NaN over or under anything is NaN. A quotient is a
  real number or one of the two infinities; NaN is the absent cell. Zero has no sign
  here.
\<close>

datatype fnum = Finite real | PInf | NInf

type_synonym fcell = "fnum option"

definition div_cell :: "cell \<times> cell \<Rightarrow> fcell" where
  "div_cell p =
     (case p of
        (Some x, Some y) \<Rightarrow>
          if y \<noteq> 0 then Some (Finite (x / y))
          else if 0 < x then Some PInf
          else if x < 0 then Some NInf
          else None
      | _ \<Rightarrow> None)"

definition result_div :: "cell result \<Rightarrow> cell result \<Rightarrow> error + fcell result" where
  "result_div a b = (case align a b of Inl e \<Rightarrow> Inl e | Inr p \<Rightarrow> Inr (map_result div_cell p))"

subsection \<open>\<^verbatim>\<open>difference\<close>\<close>

definition difference :: "frame \<Rightarrow> string \<Rightarrow> (error + cell result) \<times> frame" where
  "difference s method =
     (case ensure_overall s of
        (Inl e, s1) \<Rightarrow> (Inl e, s1)
      | (Inr _, s1) \<Rightarrow>
          (case (if method = ''between_groups'' then group_min s1
                 else if method = ''to_overall'' then overall s1
                 else (Inl UnrecognisedMethod, s1)) of
             (Inl e, s2) \<Rightarrow> (Inl e, s2)
           | (Inr subtrahend, s2) \<Rightarrow>
               (case by_group s2 of
                  (Inl e, s3) \<Rightarrow> (Inl e, s3)
                | (Inr bg, s3) \<Rightarrow>
                    (case result_sub bg subtrahend of
                       Inl e \<Rightarrow> (Inl e, s3)
                     | Inr d \<Rightarrow>
                         (case control_levels s3 of
                            (Inl e, s4) \<Rightarrow> (Inl e, s4)
                          | (Inr cl, s4) \<Rightarrow> (agg_level nanmax cl (map_result abs_cell d), s4))))))"

subsection \<open>\<^verbatim>\<open>ratio\<close>\<close>

text \<open>
  What \<^verbatim>\<open>to_overall\<close> does with the quotients: \<^verbatim>\<open>1 / x\<close>, the comparison \<^verbatim>\<open><\<close>, and
  pandas' \<^verbatim>\<open>min\<close>, which skips NaN.
\<close>

fun fnum_inverse :: "fnum \<Rightarrow> fnum" where
  "fnum_inverse (Finite x) = (if x = 0 then PInf else Finite (1 / x))"
| "fnum_inverse PInf = Finite 0"
| "fnum_inverse NInf = Finite 0"

fun fnum_less :: "fnum \<Rightarrow> fnum \<Rightarrow> bool" where
  "fnum_less (Finite x) (Finite y) = (x < y)"
| "fnum_less (Finite x) PInf = True"
| "fnum_less NInf (Finite y) = True"
| "fnum_less NInf PInf = True"
| "fnum_less _ _ = False"

definition fnanmin :: "fcell list \<Rightarrow> fcell" where
  "fnanmin cs =
     (case [x. Some x \<leftarrow> cs] of
        [] \<Rightarrow> None
      | x # xs \<Rightarrow> Some (fold (\<lambda>y m. if fnum_less y m then y else m) xs x))"

text \<open>
  The two normalisations of \<^verbatim>\<open>to_overall\<close>: \<^verbatim>\<open>min(x, 1 / x)\<close> for a single callable
  (Python's \<^verbatim>\<open>min\<close> returns its second argument when that is smaller, its first
  otherwise), \<^verbatim>\<open>ratio_sub_one\<close> for a dict of callables. Every comparison with NaN is
  false.
\<close>

definition min_with_inverse :: "fcell \<Rightarrow> fcell" where
  "min_with_inverse c =
     (case c of
        None \<Rightarrow> None
      | Some x \<Rightarrow> Some (if fnum_less (fnum_inverse x) x then fnum_inverse x else x))"

definition ratio_sub_one :: "fcell \<Rightarrow> fcell" where
  "ratio_sub_one c =
     (case c of
        None \<Rightarrow> None
      | Some x \<Rightarrow> Some (if fnum_less (Finite 1) x then fnum_inverse x else x))"

text \<open>
  With a dict of callables and control levels the source unstacks the control levels of
  both tables into the columns, divides, takes the column minima and unstacks the
  function names back: cell by cell, each by-group value over the overall value of its
  control stratum and function, then the minimum within the stratum.
\<close>

definition ratio_to_overall :: "frame \<Rightarrow> (error + fcell result) \<times> frame" where
  "ratio_to_overall s =
     (case attr_user_supplied_callable s of
        None \<Rightarrow> (Inl AttributeError, s)
      | Some True \<Rightarrow>
          (case by_group s of
             (Inl e, s1) \<Rightarrow> (Inl e, s1)
           | (Inr bg, s1) \<Rightarrow>
               (case overall s1 of
                  (Inl e, s2) \<Rightarrow> (Inl e, s2)
                | (Inr ov, s2) \<Rightarrow>
                    (case result_div bg ov of
                       Inl e \<Rightarrow> (Inl e, s2)
                     | Inr tmp \<Rightarrow>
                         (case control_levels s2 of
                            (Inl e, s3) \<Rightarrow> (Inl e, s3)
                          | (Inr cl, s3) \<Rightarrow>
                              (agg_level fnanmin cl (map_result min_with_inverse tmp), s3)))))
      | Some False \<Rightarrow>
          (case control_levels s of
             (Inl e, s1) \<Rightarrow> (Inl e, s1)
           | (Inr cl, s1) \<Rightarrow>
               (case by_group s1 of
                  (Inl e, s2) \<Rightarrow> (Inl e, s2)
                | (Inr bg, s2) \<Rightarrow>
                    (case overall s2 of
                       (Inl e, s3) \<Rightarrow> (Inl e, s3)
                     | (Inr ov, s3) \<Rightarrow>
                         (case result_div bg ov of
                            Inl e \<Rightarrow> (Inl e, s3)
                          | Inr tmp \<Rightarrow>
                              (agg_level fnanmin (if levels_truthy cl then cl else None)
                                 (map_result ratio_sub_one tmp), s3))))))"

definition ratio :: "frame \<Rightarrow> string \<Rightarrow> (error + fcell result) \<times> frame" where
  "ratio s method =
     (case ensure_by_group s of
        (Inl e, s1) \<Rightarrow> (Inl e, s1)
      | (Inr _, s1) \<Rightarrow>
          if method = ''between_groups'' then
            (case group_min s1 of
               (Inl e, s2) \<Rightarrow> (Inl e, s2)
             | (Inr a, s2) \<Rightarrow>
                 (case group_max s2 of
                    (Inl e, s3) \<Rightarrow> (Inl e, s3)
                  | (Inr b, s3) \<Rightarrow> (result_div a b, s3)))
          else if method = ''to_overall'' then ratio_to_overall s1
          else (Inl UnrecognisedMethod, s1))"

section \<open>Example data\<close>

text \<open>
  The accuracy metric of the spec's scenarios, and the frames the concrete instances
  below are evaluated on: a streaming frame without control features, one that was
  created to use them, and the data of the spec's first scenario in two batches.
\<close>

definition accuracy :: metric_fn where
  "accuracy y_true y_pred params =
     real (length (filter (\<lambda>(a, b). a = b) (zip y_true y_pred))) / real (length y_true)"

definition empty_stream :: frame where
  "empty_stream =
     (new_frame (Callable ''accuracy'' accuracy) (OList []) ONone ONone True)
       \<lparr>attr_y_true := OList [], attr_y_pred := OList []\<rparr>"

definition empty_stream_cf :: frame where
  "empty_stream_cf =
     (new_frame (Callable ''accuracy'' accuracy) (OList []) (OList []) ONone True)
       \<lparr>attr_y_true := OList [], attr_y_pred := OList []\<rparr>"

definition two_batches :: frame where
  "two_batches =
     snd (add_data
            (snd (add_data empty_stream (OList [OInt 0, OInt 1]) (OList [OInt 0, OInt 1])
                    (OList [OStr ''a'', OStr ''a'']) ONone ONone))
            (OList [OInt 0, OInt 1]) (OList [OInt 1, OInt 1])
            (OList [OStr ''b'', OStr ''b'']) ONone ONone)"

definition computed_frame :: frame where
  "computed_frame = snd (overall two_batches)"

definition three_batches :: frame where
  "three_batches =
     snd (add_data computed_frame (OList [OInt 1]) (OList [OInt 0]) (OList [OStr ''c'']) ONone ONone)"

text \<open>
  The same data with a control feature that takes the value \<open>x\<close> on the first sample
  and \<open>y\<close> on the others: no sample has control \<open>x\<close> and sensitive value \<open>b\<close>.
\<close>

definition example_rows :: "group_feature list" where
  "example_rows =
     [\<lparr>gf_name = ''control_feature_0'', classes = [OStr ''x'', OStr ''y''],
       raw_feature = [OStr ''x'', OStr ''y'', OStr ''y'', OStr ''y'']\<rparr>,
      \<lparr>gf_name = ''sensitive_feature_0'', classes = [OStr ''a'', OStr ''b''],
       raw_feature = [OStr ''a'', OStr ''a'', OStr ''b'', OStr ''b'']\<rparr>]"

definition example_func_dict :: "(string \<times> function_container) list" where
  "example_func_dict =
     [(''acc'', \<lparr>fc_func = accuracy, fc_name = ''acc'', fc_sample_params = []\<rparr>)]"

text \<open>
  A second metric, the mean of prediction minus label, and a frame with both metrics on
  ten samples in three control strata. In stratum \<open>x\<close> the two groups score
  differently on both metrics; in \<open>y\<close> the larger mean error is zero and the smaller
  accuracy is zero; in \<open>z\<close> both accuracies are zero.
\<close>

fun int_of :: "obj \<Rightarrow> int" where
  "int_of (OInt i) = i"
| "int_of _ = 0"

definition mean_error :: metric_fn where
  "mean_error y_true y_pred params =
     real_of_int (sum_list (map (\<lambda>(a, b). int_of b - int_of a) (zip y_true y_pred)))
       / real (length y_true)"

definition skewed_frame :: frame where
  "skewed_frame =
     (case MetricFrame (MetricDict [(''acc'', accuracy), (''err'', mean_error)])
             (OList [OInt 0, OInt 0, OInt 0, OInt 0, OInt 0, OInt 0, OInt 1, OInt 1, OInt 1, OInt 1])
             (OList [OInt 0, OInt 1, OInt 0, OInt 1, OInt 1, OInt 1, OInt 0, OInt 1, OInt 0, OInt 0])
             (OList [OStr ''a'', OStr ''a'', OStr ''b'', OStr ''b'', OStr ''b'', OStr ''b'',
                     OStr ''a'', OStr ''b'', OStr ''a'', OStr ''b''])
             (OList [OStr ''x'', OStr ''x'', OStr ''x'', OStr ''x'', OStr ''x'', OStr ''x'',
                     OStr ''y'', OStr ''y'', OStr ''z'', OStr ''z'']) ONone False of
        Inr s \<Rightarrow> s
      | Inl e \<Rightarrow> empty_stream)"

section \<open>Well-formed frames\<close>

text \<open>
  What holds of every frame the constructor, \<^verbatim>\<open>add_data\<close> and the readers leave behind.
  A by-group table is cached only next to an overall table and the names; its columns
  have distinct names (they are the keys of \<^verbatim>\<open>func_dict\<close>), each column has a cell for
  every row of the index, and every row label has a component for each control level.
  The list of control names is \<^verbatim>\<open>None\<close> or not empty: pandas builds no index from no
  features.
\<close>

definition table_ok :: "nat \<Rightarrow> cell dframe \<Rightarrow> bool" where
  "table_ok n df \<longleftrightarrow>
     distinct (map fst (snd df))
     \<and> list_all (\<lambda>(m, col). map fst col = fst df) (snd df)
     \<and> list_all (\<lambda>r. n \<le> length r) (fst df)"

definition frame_ok :: "frame \<Rightarrow> bool" where
  "frame_ok s \<longleftrightarrow>
     (case attr_by_group s of
        None \<Rightarrow> True
      | Some bg \<Rightarrow>
          attr_overall s \<noteq> None \<and> attr_sf_names s \<noteq> None \<and> attr_cf_names s \<noteq> Some []
          \<and> table_ok (case attr_cf_names s of None \<Rightarrow> 0 | Some cl \<Rightarrow> length cl) bg)"

text \<open>
  A frame built at once from the data with the control feature, its metric a dict of
  one function.
\<close>

definition stratified_frame :: frame where
  "stratified_frame =
     (case MetricFrame (MetricDict [(''acc'', accuracy)])
             (OList [OInt 0, OInt 1, OInt 0, OInt 1]) (OList [OInt 0, OInt 1, OInt 1, OInt 1])
             (OList [OStr ''a'', OStr ''a'', OStr ''b'', OStr ''b''])
             (OList [OStr ''x'', OStr ''y'', OStr ''y'', OStr ''y'']) ONone False of
        Inr s \<Rightarrow> s
      | Inl e \<Rightarrow> empty_stream)"

section \<open>Caches\<close>

text \<open>A computation that succeeds fills both caches and the names.\<close>

lemma compute_tables_caches:
  "compute_tables s y_t y_p sf_list cf_list s_p = (Inr u, s') \<Longrightarrow>
   attr_overall s' \<noteq> None \<and> attr_by_group s' \<noteq> None \<and> attr_user_supplied_callable s' \<noteq> None
   \<and> attr_sf_names s' = attr_sf_names s \<and> attr_cf_names s' = attr_cf_names s"
  by (auto simp: compute_tables_def process_functions_def Let_def
      split: prod.splits sum.splits metric_t.splits)

lemma compute_metric_caches:
  "compute_metric s y_t y_p s_f c_f s_p = (Inr u, s') \<Longrightarrow>
   attr_overall s' \<noteq> None \<and> attr_by_group s' \<noteq> None \<and> attr_user_supplied_callable s' \<noteq> None
   \<and> attr_sf_names s' \<noteq> None"
  by (auto simp: compute_metric_def Let_def dest!: compute_tables_caches
      split: prod.splits sum.splits if_splits)

lemma compute_streaming_metric_caches:
  "compute_streaming_metric s = (Inr u, s') \<Longrightarrow>
   attr_overall s' \<noteq> None \<and> attr_by_group s' \<noteq> None \<and> attr_user_supplied_callable s' \<noteq> None
   \<and> attr_sf_names s' \<noteq> None"
  by (auto simp: compute_streaming_metric_def Let_def dest!: compute_metric_caches
      split: prod.splits sum.splits if_splits)

lemma ensure_overall_cached: "ensure_overall s = (Inr u, s') \<Longrightarrow> attr_overall s' \<noteq> None"
  by (auto simp: ensure_overall_def dest: compute_streaming_metric_caches split: if_splits)

lemma ensure_overall_idem: "ensure_overall s = (Inr u, s') \<Longrightarrow> ensure_overall s' = (Inr (), s')"
  by (frule ensure_overall_cached) (auto simp: ensure_overall_def)

lemma ensure_by_group_cached: "ensure_by_group s = (Inr u, s') \<Longrightarrow> attr_by_group s' \<noteq> None"
  by (auto simp: ensure_by_group_def dest: compute_streaming_metric_caches split: if_splits)

lemma ensure_by_group_idem: "ensure_by_group s = (Inr u, s') \<Longrightarrow> ensure_by_group s' = (Inr (), s')"
  by (frule ensure_by_group_cached) (auto simp: ensure_by_group_def)

lemma control_levels_cached: "attr_overall s \<noteq> None \<Longrightarrow> control_levels s = (Inr (attr_cf_names s), s)"
  by (auto simp: control_levels_def ensure_overall_def)

lemma group_extreme_after_ensure:
  "ensure_by_group s = (Inr u, s1) \<Longrightarrow> group_extreme agg s = group_extreme agg s1"
  by (frule ensure_by_group_idem) (simp add: group_extreme_def)

lemma group_extreme_ensure_fails:
  "ensure_by_group s = (Inl e, s1) \<Longrightarrow> group_extreme agg s = (Inl e, s1)"
  by (simp add: group_extreme_def)

text \<open>
  Claim C8. A read of \<^verbatim>\<open>overall\<close> that returned a value leaves a frame on which the
  next read, with no \<^verbatim>\<open>add_data\<close> between, returns the same value and changes
  nothing: the call log of the metric functions stays as it was.
\<close>

theorem overall_idempotent:
  assumes "overall s = (Inr v, s')"
  shows "overall s' = (Inr v, s') \<and> calls (snd (overall s')) = calls s'"
proof -
  from assms obtain u s1 where e: "ensure_overall s = (Inr u, s1)"
    by (auto simp: overall_def split: prod.splits sum.splits)
  have c: "attr_overall s1 \<noteq> None" using e by (rule ensure_overall_cached)
  have i: "ensure_overall s1 = (Inr (), s1)" using e by (rule ensure_overall_idem)
  have cl: "control_levels s1 = (Inr (attr_cf_names s1), s1)" using c by (rule control_levels_cached)
  from assms e cl have s': "s' = s1"
    by (auto simp: overall_def split: prod.splits sum.splits option.splits bool.splits if_splits)
  from assms e have "overall s1 = overall s"
    using i by (simp add: overall_def)
  with assms s' show ?thesis by simp
qed

theorem overall_idempotent_witness:
  "fst (overall two_batches) = Inr (RValue (Some (3 / 4)))
   \<and> overall (snd (overall two_batches)) = (Inr (RValue (Some (3 / 4))), snd (overall two_batches))
   \<and> calls (snd (overall (snd (overall two_batches)))) = calls (snd (overall two_batches))
   \<and> length (calls (snd (overall two_batches))) = 3"
proof -
  have v: "fst (overall two_batches) = Inr (RValue (Some (3 / 4)))" by code_simp
  then have "overall two_batches = (Inr (RValue (Some (3 / 4))), snd (overall two_batches))"
    by (metis prod.collapse)
  from overall_idempotent [OF this] v
  have "fst (overall two_batches) = Inr (RValue (Some (3 / 4)))
   \<and> overall (snd (overall two_batches)) = (Inr (RValue (Some (3 / 4))), snd (overall two_batches))
   \<and> calls (snd (overall (snd (overall two_batches)))) = calls (snd (overall two_batches))" by simp
  moreover have "length (calls (snd (overall two_batches))) = 3" by code_simp
  ultimately show ?thesis by simp
qed


section \<open>What \<^verbatim>\<open>add_data\<close> changes\<close>

lemma add_data_control_attrs:
  "add_data_control s y_true control_features = (r, s') \<Longrightarrow>
   attr_sf_names s' = attr_sf_names s \<and> attr_cf_names s' = attr_cf_names s
   \<and> attr_overall s' = attr_overall s \<and> attr_by_group s' = attr_by_group s
   \<and> attr_s_p s' = attr_s_p s \<and> calls s' = calls s
   \<and> attr_func_dict s' = attr_func_dict s
   \<and> attr_user_supplied_callable s' = attr_user_supplied_callable s"
  by (auto simp: add_data_control_def split: if_splits sum.splits)

lemma add_data_sample_params_attrs:
  "add_data_sample_params s y_true sample_params = (r, s') \<Longrightarrow>
   attr_sf_names s' = attr_sf_names s \<and> attr_cf_names s' = attr_cf_names s
   \<and> attr_overall s' = attr_overall s \<and> attr_by_group s' = attr_by_group s
   \<and> calls s' = calls s \<and> attr_func_dict s' = attr_func_dict s
   \<and> attr_user_supplied_callable s' = attr_user_supplied_callable s
   \<and> (\<forall>e. r = Inl e \<longrightarrow> s' = s)"
  by (auto simp: add_data_sample_params_def split: if_splits sum.splits)

lemma add_data_attrs:
  assumes "add_data s y_true y_pred sensitive_features control_features sample_params = (r, s')"
  shows "attr_sf_names s' = attr_sf_names s \<and> attr_cf_names s' = attr_cf_names s
   \<and> calls s' = calls s \<and> attr_func_dict s' = attr_func_dict s
   \<and> attr_user_supplied_callable s' = attr_user_supplied_callable s
   \<and> (r = Inr () \<longrightarrow> attr_overall s' = None \<and> attr_by_group s' = None)
   \<and> (\<forall>e. r = Inl e \<longrightarrow> attr_overall s' = attr_overall s \<and> attr_by_group s' = attr_by_group s
            \<and> attr_s_p s' = attr_s_p s)"
  using assms
  by (auto simp: add_data_def Let_def split: if_splits sum.splits prod.splits
      dest!: add_data_control_attrs add_data_sample_params_attrs)

text \<open>
  Claim C10. \<^verbatim>\<open>add_data\<close> leaves the cached name lists, the function dict and the
  call log as they were, and a call that succeeds resets both caches. On a frame that
  has computed once, \<^verbatim>\<open>sensitive_levels\<close> after \<^verbatim>\<open>add_data\<close> returns the cached names
  and changes nothing, while \<^verbatim>\<open>control_levels\<close> runs \<^verbatim>\<open>_compute_streaming_metric\<close>.
\<close>

theorem add_data_keeps_names:
  assumes "attr_sf_names s = Some names"
    and "add_data s y_true y_pred sensitive_features control_features sample_params = (r, s')"
  shows "attr_sf_names s' = Some names \<and> attr_cf_names s' = attr_cf_names s
    \<and> attr_func_dict s' = attr_func_dict s
    \<and> attr_user_supplied_callable s' = attr_user_supplied_callable s
    \<and> sensitive_levels s' = (Inr (Some names), s')
    \<and> (r = Inr () \<longrightarrow>
          attr_overall s' = None \<and> attr_by_group s' = None
          \<and> control_levels s' =
              (case compute_streaming_metric s' of
                 (Inl e, s'') \<Rightarrow> (Inl e, s'')
               | (Inr u, s'') \<Rightarrow> (Inr (attr_cf_names s''), s'')))"
proof -
  note a = add_data_attrs [OF assms(2)]
  from a assms(1) have n: "attr_sf_names s' = Some names" by simp
  then have "sensitive_levels s' = (Inr (Some names), s')" by (simp add: sensitive_levels_def)
  moreover have "control_levels s' =
              (case compute_streaming_metric s' of
                 (Inl e, s'') \<Rightarrow> (Inl e, s'')
               | (Inr u, s'') \<Rightarrow> (Inr (attr_cf_names s''), s''))" if "r = Inr ()"
    using a that by (simp add: control_levels_def ensure_overall_def)
  ultimately show ?thesis using a n by simp
qed

theorem add_data_keeps_names_witness:
  "attr_sf_names computed_frame = Some [''sensitive_feature_0'']
   \<and> attr_overall computed_frame \<noteq> None
   \<and> fst (add_data computed_frame (OList [OInt 1]) (OList [OInt 0]) (OList [OStr ''c'']) ONone ONone) = Inr ()
   \<and> sensitive_levels three_batches = (Inr (Some [''sensitive_feature_0'']), three_batches)
   \<and> attr_overall three_batches = None \<and> attr_by_group three_batches = None
   \<and> control_levels three_batches =
              (case compute_streaming_metric three_batches of
                 (Inl e, s'') \<Rightarrow> (Inl e, s'')
               | (Inr u, s'') \<Rightarrow> (Inr (attr_cf_names s''), s''))
   \<and> length (calls three_batches) = 3
   \<and> length (calls (snd (control_levels three_batches))) = 7"
proof -
  have n: "attr_sf_names computed_frame = Some [''sensitive_feature_0'']" by code_simp
  have o: "attr_overall computed_frame \<noteq> None" by code_simp
  have r: "fst (add_data computed_frame (OList [OInt 1]) (OList [OInt 0]) (OList [OStr ''c'']) ONone ONone) = Inr ()"
    by code_simp
  then have "add_data computed_frame (OList [OInt 1]) (OList [OInt 0]) (OList [OStr ''c'']) ONone ONone
     = (Inr (), three_batches)"
    unfolding three_batches_def by (metis prod.collapse)
  note t = add_data_keeps_names [OF n this]
  have c3: "length (calls three_batches) = 3" by code_simp
  have c7: "length (calls (snd (control_levels three_batches))) = 7" by code_simp
  from t n o r c3 c7 show ?thesis by simp
qed




text \<open>
  Claim C6, as amended. A list whose first element is not a scalar is rejected with
  \<^verbatim>\<open>_FEATURE_LIST_NONSCALAR\<close>, whatever the base name and the sample array.
\<close>

theorem nonscalar_first_element_rejected:
  "\<not> np_isscalar x \<Longrightarrow>
   process_features base_name (OList (x # xs)) sample_array = Inl FeatureListNonScalar"
  by (simp add: process_features_def)

theorem nonscalar_first_element_rejected_witness:
  "\<not> np_isscalar (OList [OInt 2, OInt 3])
   \<and> process_features ''sensitive_feature_'' (OList [OList [OInt 2, OInt 3], OInt 1]) (OArray [2] [OInt 0, OInt 1])
       = Inl FeatureListNonScalar"
  using nonscalar_first_element_rejected [of "OList [OInt 2, OInt 3]" "''sensitive_feature_''" "[OInt 1]" "OArray [2] [OInt 0, OInt 1]"]
  by simp

text \<open>
  Claim C6 as stated fails: a list with a scalar first and a sequence second passes the
  test of \<^verbatim>\<open>features[0]\<close>, and what follows does not raise \<^verbatim>\<open>_FEATURE_LIST_NONSCALAR\<close>.
\<close>

theorem nonscalar_later_element_accepted:
  "\<not> np_isscalar (OList [OInt 2, OInt 3])
   \<and> process_features ''sensitive_feature_'' (OList [OInt 1, OList [OInt 2, OInt 3]]) (OArray [2] [OInt 0, OInt 1])
       \<noteq> Inl FeatureListNonScalar"
  by code_simp

text \<open>
  Claim C7. The frame was created with \<^verbatim>\<open>control_features=[]\<close>; a batch without
  control features is accepted, \<^verbatim>\<open>None\<close> goes into the buffer, and the error comes
  with the next read.
\<close>

theorem omitted_control_features_accepted:
  "MetricFrame (Callable ''accuracy'' accuracy) (OList []) (OList []) (OList []) (OList []) ONone True
     = Inr empty_stream_cf
   \<and> fst (add_data empty_stream_cf (OList [OInt 0, OInt 1]) (OList [OInt 0, OInt 1])
            (OList [OStr ''a'', OStr ''b'']) ONone ONone) = Inr ()
   \<and> attr_c_f (snd (add_data empty_stream_cf (OList [OInt 0, OInt 1]) (OList [OInt 0, OInt 1])
            (OList [OStr ''a'', OStr ''b'']) ONone ONone)) = OList [ONone]
   \<and> fst (overall (snd (add_data empty_stream_cf (OList [OInt 0, OInt 1]) (OList [OInt 0, OInt 1])
            (OList [OStr ''a'', OStr ''b'']) ONone ONone))) = Inl CantConcatenate"
proof -
  have "MetricFrame (Callable ''accuracy'' accuracy) (OList []) (OList []) (OList []) (OList []) ONone True
     = Inr empty_stream_cf"
    by (simp add: MetricFrame_def empty_stream_cf_def)
  moreover have "fst (add_data empty_stream_cf (OList [OInt 0, OInt 1]) (OList [OInt 0, OInt 1])
            (OList [OStr ''a'', OStr ''b'']) ONone ONone) = Inr ()" by code_simp
  moreover have "attr_c_f (snd (add_data empty_stream_cf (OList [OInt 0, OInt 1]) (OList [OInt 0, OInt 1])
            (OList [OStr ''a'', OStr ''b'']) ONone ONone)) = OList [ONone]" by code_simp
  moreover have "fst (overall (snd (add_data empty_stream_cf (OList [OInt 0, OInt 1]) (OList [OInt 0, OInt 1])
            (OList [OStr ''a'', OStr ''b'']) ONone ONone))) = Inl CantConcatenate" by code_simp
  ultimately show ?thesis by simp
qed


section \<open>Concatenating dict batches\<close>

lemma sequence_sum_map_Inr:
  "sequence_sum (map f xs) = Inr ys \<Longrightarrow> list_all2 (\<lambda>x y. f x = Inr y) xs ys"
  by (induction xs arbitrary: ys) (auto split: sum.splits)

lemma map_of_filter_keys:
  "k \<in> S \<Longrightarrow> map_of (filter (\<lambda>(k', v). k' \<in> S) d) k = map_of d k"
  by (induction d) auto

lemma dict_get_filter_keys:
  "k \<in> S \<Longrightarrow> dict_get (ODict (filter (\<lambda>(k', v). k' \<in> S) d)) k = dict_get (ODict d) k"
  by (simp add: map_of_filter_keys)

lemma concat_batches_dict:
  "concat_batches (ODict d0 # map ODict ds) =
     (case sequence_sum
             (map (\<lambda>k. case sequence_sum (map (\<lambda>batch. dict_get batch k) (ODict d0 # map ODict ds)) of
                         Inl e \<Rightarrow> Inl e
                       | Inr vs \<Rightarrow> (case concat_batches vs of Inl e \<Rightarrow> Inl e | Inr r \<Rightarrow> Inr (k, r)))
                  (map fst d0)) of
        Inl e \<Rightarrow> Inl e
      | Inr kvs \<Rightarrow> Inr (ODict kvs))"
proof -
  have "list_all (\<lambda>arr. type_of arr = TDict) (map ODict ds)"
    by (induction ds) auto
  then show ?thesis by simp
qed

text \<open>
  Claim C9. On dict batches \<^verbatim>\<open>_concat_batches\<close> sees the other batches only through the
  keys of the first: dropping every other key from the later batches changes neither the
  result nor an error. When it returns, the result is a dict with exactly the keys of
  the first batch, in their order, and the value under each key is the concatenation of
  the values all batches hold under it.
\<close>

theorem concat_dict_first_keys:
  "concat_batches (ODict d0 # map ODict ds) =
     concat_batches (ODict d0 # map (\<lambda>d. ODict (filter (\<lambda>(k, v). k \<in> set (map fst d0)) d)) ds)
   \<and> (\<forall>r. concat_batches (ODict d0 # map ODict ds) = Inr r \<longrightarrow>
         (\<exists>kvs. r = ODict kvs \<and> map fst kvs = map fst d0
            \<and> (\<forall>(k, v) \<in> set kvs.
                  \<exists>vs. sequence_sum (map (\<lambda>batch. dict_get batch k) (ODict d0 # map ODict ds)) = Inr vs
                       \<and> concat_batches vs = Inr v)))"
proof (intro conjI allI impI)
  let ?S = "set (map fst d0)"
  let ?ds' = "map (filter (\<lambda>(k, v). k \<in> ?S)) ds"
  have same: "map (\<lambda>batch. dict_get batch k) (ODict d0 # map ODict ?ds')
            = map (\<lambda>batch. dict_get batch k) (ODict d0 # map ODict ds)" if "k \<in> ?S" for k
    using that by (simp add: map_of_filter_keys comp_def)
  have "concat_batches (ODict d0 # map ODict ?ds') = concat_batches (ODict d0 # map ODict ds)"
    unfolding concat_batches_dict
    by (rule arg_cong [where f = "\<lambda>x. case sequence_sum x of Inl e \<Rightarrow> Inl e | Inr kvs \<Rightarrow> Inr (ODict kvs)"],
        rule map_cong [OF refl]) (simp only: same)
  then show "concat_batches (ODict d0 # map ODict ds) =
     concat_batches (ODict d0 # map (\<lambda>d. ODict (filter (\<lambda>(k, v). k \<in> ?S) d)) ds)"
    by (simp add: comp_def)
next
  fix r
  assume r: "concat_batches (ODict d0 # map ODict ds) = Inr r"
  let ?f = "\<lambda>k. case sequence_sum (map (\<lambda>batch. dict_get batch k) (ODict d0 # map ODict ds)) of
                    Inl e \<Rightarrow> Inl e
                  | Inr vs \<Rightarrow> (case concat_batches vs of Inl e \<Rightarrow> Inl e | Inr r \<Rightarrow> Inr (k, r))"
  from r obtain kvs where kvs: "sequence_sum (map ?f (map fst d0)) = Inr kvs" and rk: "r = ODict kvs"
    unfolding concat_batches_dict by (auto split: sum.splits)
  from kvs have l: "list_all2 (\<lambda>k y. ?f k = Inr y) (map fst d0) kvs"
    by (rule sequence_sum_map_Inr)
  have keys: "map fst kvs = map fst d0"
  proof -
    from l have "list_all2 (\<lambda>k y. fst y = k) (map fst d0) kvs"
      by (rule list_all2_mono) (auto split: sum.splits)
    then show ?thesis
      by (induction "map fst d0" kvs arbitrary: d0 rule: list_all2_induct) auto
  qed
  have each: "\<exists>vs. sequence_sum (map (\<lambda>batch. dict_get batch k) (ODict d0 # map ODict ds)) = Inr vs
                       \<and> concat_batches vs = Inr v" if "(k, v) \<in> set kvs" for k v
  proof -
    from that obtain i where i: "i < length kvs" "kvs ! i = (k, v)"
      unfolding in_set_conv_nth by blast
    with l have "?f (map fst d0 ! i) = Inr (k, v)"
      unfolding list_all2_conv_all_nth by metis
    then show ?thesis
      by (auto split: sum.splits simp del: concat_batches.simps sequence_sum.simps list.map)
  qed
  from rk keys each
  show "\<exists>kvs. r = ODict kvs \<and> map fst kvs = map fst d0
            \<and> (\<forall>(k, v) \<in> set kvs.
                  \<exists>vs. sequence_sum (map (\<lambda>batch. dict_get batch k) (ODict d0 # map ODict ds)) = Inr vs
                       \<and> concat_batches vs = Inr v)"
    by blast
qed

theorem concat_dict_first_keys_witness:
  "concat_batches (ODict [(OStr ''w'', OList [OInt 1])]
       # map ODict [[(OStr ''w'', OList [OInt 2]), (OStr ''extra'', OList [OInt 9])]])
     = Inr (ODict [(OStr ''w'', OList [OInt 1, OInt 2])])
   \<and> concat_batches (ODict [(OStr ''w'', OList [OInt 1])]
       # map ODict [[(OStr ''w'', OList [OInt 2]), (OStr ''extra'', OList [OInt 9])]])
     = concat_batches (ODict [(OStr ''w'', OList [OInt 1])] # map ODict [[(OStr ''w'', OList [OInt 2])]])"
proof -
  have "concat_batches (ODict [(OStr ''w'', OList [OInt 1])]
       # map ODict [[(OStr ''w'', OList [OInt 2]), (OStr ''extra'', OList [OInt 9])]])
     = Inr (ODict [(OStr ''w'', OList [OInt 1, OInt 2])])" by code_simp
  with concat_dict_first_keys [of "[(OStr ''w'', OList [OInt 1])]"
      "[[(OStr ''w'', OList [OInt 2]), (OStr ''extra'', OList [OInt 9])]]"]
  show ?thesis by simp
qed


section \<open>The cells of a computed table\<close>

lemma column_cells_spec:
  "column_cells func_name fc y_true y_pred rows idx lg = (Inr col, lg') \<Longrightarrow>
   map fst col = idx
   \<and> (\<exists>new. lg' = lg @ new \<and> (\<forall>(f, m) \<in> set new. \<exists>msk. m = Some msk \<and> True \<in> set msk))
   \<and> (\<forall>(r, c) \<in> set col. \<exists>msk. mask_from_tuple r rows = Inr msk
          \<and> c = (if True \<in> set msk then Some (evaluate fc y_true y_pred msk) else None))"
proof (induction idx arbitrary: lg col lg')
  case Nil
  then show ?case by simp
next
  case (Cons row_curr rest)
  from Cons.prems obtain msk where m: "mask_from_tuple row_curr rows = Inr msk"
    by (auto split: sum.splits)
  show ?case
  proof (cases "True \<in> set msk")
    case True
    with Cons.prems m obtain cs where
      rec: "column_cells func_name fc y_true y_pred rows rest (lg @ [(func_name, Some msk)]) = (Inr cs, lg')"
      and col: "col = (row_curr, Some (evaluate fc y_true y_pred msk)) # cs"
      by (auto split: sum.splits prod.splits)
    from Cons.IH [OF rec] obtain new where
      "map fst cs = rest" "lg' = (lg @ [(func_name, Some msk)]) @ new"
      "\<forall>(f, m) \<in> set new. \<exists>msk. m = Some msk \<and> True \<in> set msk"
      "\<forall>(r, c) \<in> set cs. \<exists>msk. mask_from_tuple r rows = Inr msk
          \<and> c = (if True \<in> set msk then Some (evaluate fc y_true y_pred msk) else None)"
      by blast
    with col m True show ?thesis
      by (intro conjI exI [where x = "(func_name, Some msk) # new"]) auto
  next
    case False
    with Cons.prems m obtain cs where
      rec: "column_cells func_name fc y_true y_pred rows rest lg = (Inr cs, lg')"
      and col: "col = (row_curr, None) # cs"
      by (auto split: sum.splits prod.splits)
    from Cons.IH [OF rec] col m False show ?thesis by auto
  qed
qed

lemma table_columns_spec:
  "table_columns func_dict y_true y_pred rows idx lg = (Inr cols, lg') \<Longrightarrow>
   map fst cols = map fst func_dict
   \<and> (\<exists>new. lg' = lg @ new \<and> (\<forall>(f, m) \<in> set new. \<exists>msk. m = Some msk \<and> True \<in> set msk))
   \<and> (\<forall>(f, col) \<in> set cols. map fst col = idx
         \<and> (\<forall>(r, c) \<in> set col. \<exists>msk. mask_from_tuple r rows = Inr msk \<and> (c = None \<longleftrightarrow> True \<notin> set msk)))"
proof (induction func_dict arbitrary: lg cols lg')
  case Nil
  then show ?case by simp
next
  case (Cons p rest)
  obtain func_name fc where p: "p = (func_name, fc)" by (cases p)
  from Cons.prems p obtain col lg1 cs where
    c: "column_cells func_name fc y_true y_pred rows idx lg = (Inr col, lg1)"
    and rec: "table_columns rest y_true y_pred rows idx lg1 = (Inr cs, lg')"
    and cols: "cols = (func_name, col) # cs"
    by (auto split: sum.splits prod.splits)
  from column_cells_spec [OF c] obtain new1 where
    c1: "map fst col = idx" "lg1 = lg @ new1"
    "\<forall>(f, m) \<in> set new1. \<exists>msk. m = Some msk \<and> True \<in> set msk"
    "\<forall>(r, c) \<in> set col. \<exists>msk. mask_from_tuple r rows = Inr msk
          \<and> c = (if True \<in> set msk then Some (evaluate fc y_true y_pred msk) else None)"
    by blast
  from Cons.IH [OF rec] obtain new2 where
    c2: "map fst cs = map fst rest" "lg' = lg1 @ new2"
    "\<forall>(f, m) \<in> set new2. \<exists>msk. m = Some msk \<and> True \<in> set msk"
    "\<forall>(f, col) \<in> set cs. map fst col = idx
         \<and> (\<forall>(r, c) \<in> set col. \<exists>msk. mask_from_tuple r rows = Inr msk \<and> (c = None \<longleftrightarrow> True \<notin> set msk))"
    by blast
  have "map fst cols = map fst (p # rest)" using cols p c2(1) by simp
  moreover have "\<exists>new. lg' = lg @ new \<and> (\<forall>(f, m) \<in> set new. \<exists>msk. m = Some msk \<and> True \<in> set msk)"
    using c1(2,3) c2(2,3) by (intro exI [where x = "new1 @ new2"]) auto
  moreover have "\<forall>(f, col) \<in> set cols. map fst col = idx
         \<and> (\<forall>(r, c) \<in> set col. \<exists>msk. mask_from_tuple r rows = Inr msk \<and> (c = None \<longleftrightarrow> True \<notin> set msk))"
    using cols c1(1,4) c2(4) by fastforce
  ultimately show ?case by blast
qed


section \<open>The largest difference within a stratum\<close>

lemma present_Nil [simp]: "present [] = []"
  by (simp add: present_def)

lemma present_Cons [simp]:
  "present (c # cs) = (case c of None \<Rightarrow> present cs | Some x \<Rightarrow> x # present cs)"
  by (simp add: present_def split: option.splits)

lemma present_map_sub_Some:
  "present (map (\<lambda>c. abs_cell (sub_cell (c, Some m))) cs) = map (\<lambda>x. \<bar>x - m\<bar>) (present cs)"
  by (induction cs) (auto simp: abs_cell_def sub_cell_def split: option.splits)

lemma present_map_sub_None:
  "present (map (\<lambda>c. abs_cell (sub_cell (c, None))) cs) = []"
  by (induction cs) (auto simp: abs_cell_def sub_cell_def split: option.splits)

lemma fold_max_Max: "fold max xs x = Max (set (x # xs))" for x :: real
  by (simp only: Max.set_eq_fold)

lemma fold_min_Min: "fold min xs x = Min (set (x # xs))" for x :: real
  by (simp only: Min.set_eq_fold)

lemma Max_abs_diff_Min:
  fixes S :: "real set"
  assumes "finite S" "S \<noteq> {}"
  shows "Max ((\<lambda>x. \<bar>x - Min S\<bar>) ` S) = Max S - Min S"
proof -
  have "(\<lambda>x. \<bar>x - Min S\<bar>) ` S = (\<lambda>x. x - Min S) ` S"
    using assms by (intro image_cong refl) (simp add: abs_of_nonneg)
  moreover have "Max ((\<lambda>x. x - Min S) ` S) = Max S - Min S"
    using assms by (intro mono_Max_commute [symmetric] monoI) simp_all
  ultimately show ?thesis by simp
qed

lemma nanmax_abs_diff_nanmin:
  "nanmax (map (\<lambda>c. abs_cell (sub_cell (c, nanmin cs))) cs) = sub_cell (nanmax cs, nanmin cs)"
proof (cases "present cs")
  case Nil
  then have mn: "nanmin cs = None" and mx: "nanmax cs = None"
    by (simp_all add: nanmin_def nanmax_def)
  have "nanmax (map (\<lambda>c. abs_cell (sub_cell (c, None))) cs) = None"
    unfolding nanmax_def present_map_sub_None by simp
  with mn mx show ?thesis by (simp add: sub_cell_def)
next
  case (Cons x xs)
  let ?S = "set (x # xs)"
  have mn: "nanmin cs = Some (Min ?S)" using Cons by (simp add: nanmin_def fold_min_Min)
  have mx: "nanmax cs = Some (Max ?S)" using Cons by (simp add: nanmax_def fold_max_Max)
  have "nanmax (map (\<lambda>c. abs_cell (sub_cell (c, Some (Min ?S)))) cs)
        = Some (Max ((\<lambda>y. \<bar>y - Min ?S\<bar>) ` ?S))"
    unfolding nanmax_def present_map_sub_Some Cons
    by (simp add: fold_max_Max)
  also have "\<dots> = Some (Max ?S - Min ?S)"
    by (subst Max_abs_diff_Min) simp_all
  finally show ?thesis using mn mx by (simp add: sub_cell_def)
qed


lemma map_of_keyed: "map_of (map (\<lambda>g. (g, f g)) ks) k = (if k \<in> set ks then Some (f k) else None)"
  by (induction ks) auto

lemma lookup_cell_keyed:
  "lookup_cell (map (\<lambda>g. (g, f g)) ks) k = (if k \<in> set ks then f k else None)"
  by (simp add: lookup_cell_def map_of_keyed)

lemma group_keys_length:
  assumes "\<forall>(r, c) \<in> set col. n \<le> length r" "g \<in> set (group_keys n col)"
  shows "length g = n"
  using assms by (auto simp: group_keys_def)

lemma key_len_group_series:
  assumes "\<forall>(r, c) \<in> set col. n \<le> length r" "col \<noteq> []"
  shows "key_len (group_series agg n col) = n"
proof -
  from assms(2) have ne: "group_keys n col \<noteq> []" by (simp add: group_keys_def)
  then obtain g gs where g: "group_keys n col = g # gs" by (cases "group_keys n col") auto
  then have "g \<in> set (group_keys n col)" by simp
  with assms(1) have "length g = n" by (rule group_keys_length)
  with g show ?thesis by (simp add: key_len_def group_series_def)
qed

lemma align_with_group:
  assumes len: "\<forall>(r, c) \<in> set col. n \<le> length r"
  shows "align_series col (group_series agg n col)
       = map (\<lambda>(r, c). (r, (c, agg (group_cells n (take n r) col)))) col"
proof (cases "col = []")
  case True
  then show ?thesis by (simp add: align_series_def)
next
  case False
  have k: "key_len (group_series agg n col) = n" using len False by (rule key_len_group_series)
  have "lookup_cell (group_series agg n col) (take n r) = agg (group_cells n (take n r) col)"
    if "(r, c) \<in> set col" for r c
  proof -
    from that have "take n r \<in> set (group_keys n col)" by (force simp: group_keys_def)
    then show ?thesis by (simp add: group_series_def lookup_cell_keyed)
  qed
  then show ?thesis unfolding align_series_def k by (intro map_cong refl) auto
qed

lemma align_groups:
  assumes len: "\<forall>(r, c) \<in> set col. n \<le> length r"
  shows "align_series (group_series agg n col) (group_series agg' n col)
       = map (\<lambda>g. (g, (agg (group_cells n g col), agg' (group_cells n g col)))) (group_keys n col)"
proof (cases "col = []")
  case True
  then show ?thesis by (simp add: align_series_def group_series_def group_keys_def)
next
  case False
  have k: "key_len (group_series agg' n col) = n" using len False by (rule key_len_group_series)
  have "lookup_cell (group_series agg' n col) (take n g) = agg' (group_cells n g col)"
    if "g \<in> set (group_keys n col)" for g
  proof -
    from len that have "length g = n" by (rule group_keys_length)
    with that show ?thesis by (simp add: group_series_def lookup_cell_keyed)
  qed
  then show ?thesis
    unfolding align_series_def k by (simp add: group_series_def)
qed

lemma group_keys_relabel:
  "group_keys n (map (\<lambda>(r, c). (r, h r c)) col) = group_keys n col"
  by (simp add: group_keys_def comp_def split_def)

lemma group_cells_relabel:
  "group_cells n g (map (\<lambda>(r, c). (r, h r c)) col)
   = map (\<lambda>(r, c). h r c) (filter (\<lambda>(r, c). take n r = g) col)"
  by (induction col) (auto simp: group_cells_def)

lemma map_filter_group:
  assumes "\<And>r c. take n r = g \<Longrightarrow> h r c = h' c"
  shows "map (\<lambda>(r, c). h r c) (filter (\<lambda>(r, c). take n r = g) col) = map h' (group_cells n g col)"
  by (induction col) (auto simp: group_cells_def assms)

lemma group_max_abs_diff:
  assumes len: "\<forall>(r, c) \<in> set col. n \<le> length r"
  shows "group_series nanmax n
           (map (map_prod id abs_cell) (map (map_prod id sub_cell)
              (align_series col (group_series nanmin n col))))
       = map (map_prod id sub_cell)
           (align_series (group_series nanmax n col) (group_series nanmin n col))"
proof -
  let ?h = "\<lambda>r c. abs_cell (sub_cell (c, nanmin (group_cells n (take n r) col)))"
  have col': "map (map_prod id abs_cell) (map (map_prod id sub_cell)
              (align_series col (group_series nanmin n col)))
            = map (\<lambda>(r, c). (r, ?h r c)) col"
    unfolding align_with_group [OF len] by (simp add: split_def)
  have cells: "group_cells n g (map (\<lambda>(r, c). (r, ?h r c)) col)
             = map (\<lambda>c. abs_cell (sub_cell (c, nanmin (group_cells n g col)))) (group_cells n g col)" for g
    unfolding group_cells_relabel by (rule map_filter_group) simp
  have "group_series nanmax n (map (\<lambda>(r, c). (r, ?h r c)) col)
      = map (\<lambda>g. (g, sub_cell (nanmax (group_cells n g col), nanmin (group_cells n g col)))) (group_keys n col)"
    unfolding group_series_def group_keys_relabel cells nanmax_abs_diff_nanmin ..
  moreover have "map (map_prod id sub_cell)
           (align_series (group_series nanmax n col) (group_series nanmin n col))
      = map (\<lambda>g. (g, sub_cell (nanmax (group_cells n g col), nanmin (group_cells n g col)))) (group_keys n col)"
    unfolding align_groups [OF len] by simp
  ultimately show ?thesis unfolding col' by simp
qed


lemma ensure_overall_cached_id: "attr_overall s \<noteq> None \<Longrightarrow> ensure_overall s = (Inr (), s)"
  by (auto simp: ensure_overall_def)

lemma ensure_by_group_cached_id: "attr_by_group s \<noteq> None \<Longrightarrow> ensure_by_group s = (Inr (), s)"
  by (auto simp: ensure_by_group_def)

text \<open>The value of \<^verbatim>\<open>group_max\<close> or \<^verbatim>\<open>group_min\<close> on a frame with both caches.\<close>

lemma group_extreme_cached:
  assumes "attr_overall s \<noteq> None" "attr_by_group s = Some bg"
  shows "group_extreme agg s =
     (case attr_user_supplied_callable s of
        None \<Rightarrow> Inl AttributeError
      | Some True \<Rightarrow>
          (if levels_truthy (attr_cf_names s)
           then iloc_col0 (RFrame (groupby_level agg (length (the (attr_cf_names s))) bg))
           else iloc_0 (RFuncs (map (\<lambda>(m, col). (m, agg (map snd col))) (snd bg))))
      | Some False \<Rightarrow>
          Inr (if levels_truthy (attr_cf_names s)
               then RFrame (groupby_level agg (length (the (attr_cf_names s))) bg)
               else RFuncs (map (\<lambda>(m, col). (m, agg (map snd col))) (snd bg))), s)"
  using assms
  by (simp add: group_extreme_def ensure_by_group_cached_id control_levels_cached Let_def
      split: option.splits bool.splits)

lemma by_group_cached:
  assumes "attr_by_group s = Some bg"
  shows "by_group s =
     (case attr_user_supplied_callable s of
        None \<Rightarrow> Inl AttributeError
      | Some usc \<Rightarrow> if usc then iloc_col0 (RFrame bg) else Inr (RFrame bg), s)"
  using assms by (simp add: by_group_def ensure_by_group_cached_id split: option.splits)

lemma map_of_column:
  "distinct (map fst cols) \<Longrightarrow> (m, col) \<in> set cols \<Longrightarrow>
   map_of (map (\<lambda>(m, col). (m, f col)) cols) m = Some (f col)"
  by (induction cols) (auto simp: rev_image_eqI)

lemma lookup_column:
  "distinct (map fst cols) \<Longrightarrow> (m, col) \<in> set cols \<Longrightarrow>
   lookup_cell (map (\<lambda>(m, col). (m, f col)) cols) m = f col"
  by (simp add: lookup_cell_def map_of_column)

text \<open>One column, no control levels.\<close>

lemma column_max_abs_diff:
  "nanmax (map snd (map (map_prod id abs_cell) (map (map_prod id sub_cell)
      (map (\<lambda>(r, c). (r, (c, nanmin (map snd col)))) col))))
   = sub_cell (nanmax (map snd col), nanmin (map snd col))"
proof -
  have "map snd (map (map_prod id abs_cell) (map (map_prod id sub_cell)
      (map (\<lambda>(r, c). (r, (c, nanmin (map snd col)))) col)))
    = map (\<lambda>c. abs_cell (sub_cell (c, nanmin (map snd col)))) (map snd col)"
    by (simp add: split_def)
  then show ?thesis by (simp only: nanmax_abs_diff_nanmin)
qed

lemma pair_with_eq: "map_prod id (\<lambda>c. (c, v)) = (\<lambda>(r, c). (r, (c, v)))"
  by (simp add: fun_eq_iff)

text \<open>The four shapes of a frame with both caches.\<close>

lemma difference_value_callable_plain:
  "(case iloc_0 (RFuncs (map (\<lambda>(m, col). (m, nanmin (map snd col))) cols)) of
      Inl e \<Rightarrow> Inl e
    | Inr subtrahend \<Rightarrow>
        (case iloc_col0 (RFrame (idx, cols)) of
           Inl e \<Rightarrow> Inl e
         | Inr bg \<Rightarrow>
             (case result_sub bg subtrahend of
                Inl e \<Rightarrow> Inl e
              | Inr d \<Rightarrow> agg_level nanmax None (map_result abs_cell d))))
   = (case iloc_0 (RFuncs (map (\<lambda>(m, col). (m, nanmax (map snd col))) cols)) of
        Inl e \<Rightarrow> Inl e
      | Inr a \<Rightarrow>
          (case iloc_0 (RFuncs (map (\<lambda>(m, col). (m, nanmin (map snd col))) cols)) of
             Inl e \<Rightarrow> Inl e
           | Inr b \<Rightarrow> result_sub a b))"
proof (cases cols)
  case Nil
  then show ?thesis by simp
next
  case (Cons p rest)
  obtain m col where p: "p = (m, col)" by (cases p)
  show ?thesis
    unfolding Cons p
    by (simp add: result_sub_def pair_with_eq column_max_abs_diff del: map_map)
qed


lemma nanmax_abs_diff_nanmin_snd:
  "nanmax (map (\<lambda>x. abs_cell (sub_cell (snd x, nanmin (map snd col)))) col)
   = sub_cell (nanmax (map snd col), nanmin (map snd col))"
  using nanmax_abs_diff_nanmin [of "map snd col"] by (simp add: comp_def)

lemma difference_value_dict_plain:
  assumes "distinct (map fst cols)"
  shows "(case result_sub (RFrame (idx, cols)) (RFuncs (map (\<lambda>(m, col). (m, nanmin (map snd col))) cols)) of
      Inl e \<Rightarrow> Inl e
    | Inr d \<Rightarrow> agg_level nanmax None (map_result abs_cell d))
   = result_sub (RFuncs (map (\<lambda>(m, col). (m, nanmax (map snd col))) cols))
       (RFuncs (map (\<lambda>(m, col). (m, nanmin (map snd col))) cols))"
proof -
  have l: "lookup_cell (map (\<lambda>(m, col). (m, nanmin (map snd col))) cols) (fst x) = nanmin (map snd (snd x))"
    if "x \<in> set cols" for x
    using that assms lookup_column [of cols "fst x" "snd x" "\<lambda>col. nanmin (map snd col)"] by simp
  show ?thesis
    apply (simp add: result_sub_def split_def comp_def)
    apply (intro ballI)
    apply (simp add: l [unfolded split_def] nanmax_abs_diff_nanmin_snd)
    done
qed


lemma difference_value_callable_cf:
  assumes "cl \<noteq> []" and "\<forall>(m, col) \<in> set cols. \<forall>(r, c) \<in> set col. length cl \<le> length r"
  shows "(case iloc_col0 (RFrame (groupby_level nanmin (length cl) (idx, cols))) of
      Inl e \<Rightarrow> Inl e
    | Inr subtrahend \<Rightarrow>
        (case iloc_col0 (RFrame (idx, cols)) of
           Inl e \<Rightarrow> Inl e
         | Inr bg \<Rightarrow>
             (case result_sub bg subtrahend of
                Inl e \<Rightarrow> Inl e
              | Inr d \<Rightarrow> agg_level nanmax (Some cl) (map_result abs_cell d))))
   = (case iloc_col0 (RFrame (groupby_level nanmax (length cl) (idx, cols))) of
        Inl e \<Rightarrow> Inl e
      | Inr a \<Rightarrow>
          (case iloc_col0 (RFrame (groupby_level nanmin (length cl) (idx, cols))) of
             Inl e \<Rightarrow> Inl e
           | Inr b \<Rightarrow> result_sub a b))"
proof (cases cols)
  case Nil
  then show ?thesis by (simp add: groupby_level_def)
next
  case (Cons p rest)
  obtain m col where p: "p = (m, col)" by (cases p)
  from assms(2) Cons p have len: "\<forall>(r, c) \<in> set col. length cl \<le> length r" by simp
  show ?thesis
    unfolding Cons p using assms(1)
    by (simp add: groupby_level_def result_sub_def group_max_abs_diff [OF len] del: map_map)
qed

lemma difference_value_dict_cf:
  assumes "cl \<noteq> []" and "\<forall>(m, col) \<in> set cols. \<forall>(r, c) \<in> set col. length cl \<le> length r"
    and "distinct (map fst cols)"
  shows "(case result_sub (RFrame (idx, cols)) (RFrame (groupby_level nanmin (length cl) (idx, cols))) of
      Inl e \<Rightarrow> Inl e
    | Inr d \<Rightarrow> agg_level nanmax (Some cl) (map_result abs_cell d))
   = result_sub (RFrame (groupby_level nanmax (length cl) (idx, cols)))
       (RFrame (groupby_level nanmin (length cl) (idx, cols)))"
proof -
  let ?n = "length cl"
  have lmin: "map_of (map (\<lambda>(m, col). (m, group_series nanmin ?n col)) cols) (fst x)
            = Some (group_series nanmin ?n (snd x))" if "x \<in> set cols" for x
    using that assms(3) map_of_column [of cols "fst x" "snd x" "group_series nanmin ?n"] by simp
  have len: "\<forall>(r, c) \<in> set (snd x). ?n \<le> length r" if "x \<in> set cols" for x
    using that assms(2) by (force simp: split_def)
  have col: "group_series nanmax ?n
           (map (map_prod id abs_cell) (map (map_prod id sub_cell)
              (align_series (snd x) (group_series nanmin ?n (snd x)))))
       = map (map_prod id sub_cell)
           (align_series (group_series nanmax ?n (snd x)) (group_series nanmin ?n (snd x)))"
    if "x \<in> set cols" for x
    using len [OF that] by (rule group_max_abs_diff)
  have col2: "group_series nanmax ?n
           (map (\<lambda>y. map_prod id abs_cell (map_prod id sub_cell y))
              (align_series (snd x) (group_series nanmin ?n (snd x))))
       = map (map_prod id sub_cell)
           (align_series (group_series nanmax ?n (snd x)) (group_series nanmin ?n (snd x)))"
    if "x \<in> set cols" for x
    using col [OF that] by (simp add: comp_def)
  show ?thesis
    using assms(1)
    apply (simp add: result_sub_def groupby_level_def split_def del: map_map)
    apply (simp add: comp_def)
    apply (intro ballI)
    apply (simp add: lmin [unfolded split_def] col2)
    done
qed


lemma sum_case_pair:
  "(case x of Inl e \<Rightarrow> (Inl e, s) | Inr v \<Rightarrow> (g v, s)) = (case x of Inl e \<Rightarrow> Inl e | Inr v \<Rightarrow> g v, s)"
  by (cases x) simp_all

lemma table_ok_columns:
  assumes "table_ok n (idx, cols)"
  shows "distinct (map fst cols)" and "\<forall>(m, col) \<in> set cols. \<forall>(r, c) \<in> set col. n \<le> length r"
proof -
  from assms show "distinct (map fst cols)" by (simp add: table_ok_def)
  show "\<forall>(m, col) \<in> set cols. \<forall>(r, c) \<in> set col. n \<le> length r"
  proof (clarify)
    fix m col r c
    assume mc: "(m, col) \<in> set cols" and rc: "(r, c) \<in> set col"
    from assms mc have "map fst col = idx" by (auto simp: table_ok_def list_all_iff)
    with rc have "r \<in> set idx" by force
    with assms show "n \<le> length r" by (auto simp: table_ok_def list_all_iff)
  qed
qed

lemma difference_cached:
  assumes ov: "attr_overall s \<noteq> None" and bg: "attr_by_group s = Some bg" and ok: "frame_ok s"
  shows "difference s ''between_groups'' =
     (case group_max s of
        (Inl e, s1) \<Rightarrow> (Inl e, s1)
      | (Inr a, s1) \<Rightarrow>
          (case group_min s1 of
             (Inl e, s2) \<Rightarrow> (Inl e, s2)
           | (Inr b, s2) \<Rightarrow> (result_sub a b, s2)))"
proof -
  obtain idx cols where b: "bg = (idx, cols)" by (cases bg)
  let ?n = "case attr_cf_names s of None \<Rightarrow> 0 | Some cl \<Rightarrow> length cl"
  from ok bg b have t: "table_ok ?n (idx, cols)" and ne: "attr_cf_names s \<noteq> Some []"
    by (simp_all add: frame_ok_def)
  note d = table_ok_columns [OF t]
  note reads = ensure_overall_cached_id [OF ov] control_levels_cached [OF ov]
    group_extreme_cached [OF ov bg] by_group_cached [OF bg]
  note defs = difference_def group_min_def group_max_def reads b
  note basic = option.case bool.case if_True if_False levels_truthy.simps prod.case sum.case
    sum_case_pair snd_conv refl simp_thms list.simps option.sel
  show ?thesis
  proof (cases "attr_user_supplied_callable s")
    case None
    then show ?thesis
      by (simp add: difference_def group_min_def group_max_def reads)
  next
    case usc: (Some usc)
    show ?thesis
    proof (cases "attr_cf_names s")
      case None
      show ?thesis
      proof (cases usc)
        case True
        show ?thesis
          apply (simp only: defs usc None True basic)
          apply (simp only: difference_value_callable_plain)
          done
      next
        case False
        show ?thesis
          apply (simp only: defs usc None False basic)
          apply (simp only: difference_value_dict_plain [OF d(1)])
          done
      qed
    next
      case (Some cl)
      with ne have cl: "cl \<noteq> []" by simp
      from d(2) Some have len: "\<forall>(m, col) \<in> set cols. \<forall>(r, c) \<in> set col. length cl \<le> length r" by simp
      show ?thesis
      proof (cases usc)
        case True
        show ?thesis
          apply (simp only: defs usc Some True cl basic)
          apply (simp only: difference_value_callable_cf [OF cl len])
          done
      next
        case False
        show ?thesis
          apply (simp only: defs usc Some False cl basic)
          apply (simp only: difference_value_dict_cf [OF cl len d(1)])
          done
      qed
    qed
  qed
qed


lemma containers_loop_distinct:
  "containers_loop fns s_p acc = Inr fd \<Longrightarrow> distinct (map fst acc) \<Longrightarrow> distinct (map fst fd)"
  by (induction fns s_p acc rule: containers_loop.induct)
     (auto split: sum.splits simp: distinct_update)

lemma process_functions_distinct:
  "process_functions s metric sample_params = (Inr fd, s') \<Longrightarrow> distinct (map fst fd)"
  by (auto simp: process_functions_def Let_def split: metric_t.splits sum.splits
      dest: containers_loop_distinct)

lemma row_index_lengths:
  "row_index rows = Inr idx \<Longrightarrow> rows \<noteq> [] \<and> (\<forall>r \<in> set idx. length r = length rows)"
proof (cases rows)
  case Nil
  assume "row_index rows = Inr idx"
  with Nil show ?thesis by (simp add: row_index_def)
next
  case (Cons f rest)
  assume ri: "row_index rows = Inr idx"
  show ?thesis
  proof (cases rest)
    case Nil
    with Cons ri show ?thesis by (auto simp: row_index_def)
  next
    case (Cons g rest')
    with \<open>rows = f # rest\<close> ri have "idx = product_lists (map classes rows)"
      by (simp add: row_index_def del: product_lists.simps)
    then have "\<forall>r \<in> set idx. length r = length rows"
      using in_set_product_lists_length [of _ "map classes rows"] by simp
    with \<open>rows = f # rest\<close> show ?thesis by simp
  qed
qed

lemma compute_dataframe_table_ok:
  assumes "compute_dataframe_from_rows func_dict y_true y_pred rows lg = (Inr df, lg')"
    and "distinct (map fst func_dict)" and "n \<le> length rows"
  shows "table_ok n df \<and> rows \<noteq> []"
proof -
  from assms(1) obtain idx cols where
    ri: "row_index rows = Inr idx"
    and t: "table_columns func_dict y_true y_pred rows idx lg = (Inr cols, lg')" and df: "df = (idx, cols)"
    by (auto simp: compute_dataframe_from_rows_def split: sum.splits prod.splits)
  note s = table_columns_spec [OF t]
  note l = row_index_lengths [OF ri]
  from s assms(2) have "distinct (map fst cols)" by simp
  moreover from s have "list_all (\<lambda>(m, col). map fst col = idx) cols"
    by (auto simp: list_all_iff)
  moreover from l assms(3) have "list_all (\<lambda>r. n \<le> length r) idx"
    by (auto simp: list_all_iff)
  ultimately show ?thesis using df l by (simp add: table_ok_def)
qed

lemma compute_tables_by_group:
  assumes "compute_tables s y_t y_p sf_list cf_list s_p = (r, s')"
  shows "(\<forall>e. r = Inl e \<longrightarrow> attr_by_group s' = attr_by_group s)
    \<and> (r = Inr () \<longrightarrow> cf_list \<noteq> Some []
          \<and> (\<exists>bg. attr_by_group s' = Some bg
                \<and> table_ok (case cf_list of None \<Rightarrow> 0 | Some cfs \<Rightarrow> length cfs) bg))"
proof (cases r)
  case (Inl e)
  with assms show ?thesis
    by (auto simp: compute_tables_def process_functions_def Let_def
        split: prod.splits sum.splits metric_t.splits)
next
  case (Inr u)
  with assms obtain fd s1 ov lg bg lg' where
    pf: "process_functions s (attr_metric s) s_p = (Inr fd, s1)"
    and co: "compute_overall fd y_t y_p cf_list (calls s1) = (Inr ov, lg)"
    and cb: "compute_by_group fd y_t y_p sf_list cf_list lg = (Inr bg, lg')"
    and s': "attr_by_group s' = Some bg"
    by (auto simp: compute_tables_def Let_def split: prod.splits sum.splits)
  have d: "distinct (map fst fd)" using pf by (rule process_functions_distinct)
  have ne: "cf_list \<noteq> Some []"
    using co by (auto simp: compute_overall_def compute_dataframe_from_rows_def row_index_def
        split: option.splits)
  have "table_ok (case cf_list of None \<Rightarrow> 0 | Some cfs \<Rightarrow> length cfs) bg"
  proof (cases cf_list)
    case None
    with cb have "compute_dataframe_from_rows fd y_t y_p sf_list lg = (Inr bg, lg')"
      by (simp add: compute_by_group_def)
    from compute_dataframe_table_ok [OF this d, of 0] None show ?thesis by simp
  next
    case (Some cfs)
    with cb have "compute_dataframe_from_rows fd y_t y_p (cfs @ sf_list) lg = (Inr bg, lg')"
      by (simp add: compute_by_group_def)
    from compute_dataframe_table_ok [OF this d, of "length cfs"] Some show ?thesis by simp
  qed
  with ne s' Inr show ?thesis by simp
qed

lemma compute_metric_frame_ok:
  assumes "compute_metric s y_t y_p s_f c_f s_p = (r, s')" and "attr_by_group s = None"
  shows "frame_ok s'"
proof (cases r)
  case (Inl e)
  with assms have "attr_by_group s' = None"
    by (auto simp: compute_metric_def Let_def split: sum.splits if_splits
        dest!: compute_tables_by_group)
  then show ?thesis by (simp add: frame_ok_def)
next
  case (Inr u)
  with assms(1) have c: "attr_overall s' \<noteq> None" "attr_sf_names s' \<noteq> None"
    by (auto dest: compute_metric_caches)
  from assms(1) Inr obtain s0 sf_list cf_list where
    t: "compute_tables s0 y_t y_p sf_list cf_list s_p = (Inr u, s')"
    and n: "attr_cf_names s0 = map_option (map gf_name) cf_list"
    by (auto simp: compute_metric_def Let_def split: sum.splits if_splits)
  from compute_tables_by_group [OF t] obtain bg where
    ne: "cf_list \<noteq> Some []" and bg: "attr_by_group s' = Some bg"
    and ok: "table_ok (case cf_list of None \<Rightarrow> 0 | Some cfs \<Rightarrow> length cfs) bg"
    by auto
  from compute_tables_caches [OF t] n have n': "attr_cf_names s' = map_option (map gf_name) cf_list"
    by simp
  show ?thesis
    using c bg ok ne n' by (cases cf_list) (auto simp: frame_ok_def)
qed

lemma compute_streaming_metric_frame_ok:
  assumes "compute_streaming_metric s = (r, s')" and "attr_by_group s = None"
  shows "frame_ok s'"
proof -
  have "frame_ok s" using assms(2) by (simp add: frame_ok_def)
  with assms show ?thesis
    by (auto simp: compute_streaming_metric_def Let_def split: sum.splits if_splits
        dest: compute_metric_frame_ok)
qed

lemma compute_streaming_metric_fails:
  "compute_streaming_metric s = (Inl e, s') \<Longrightarrow> attr_by_group s' = attr_by_group s"
  by (auto simp: compute_streaming_metric_def compute_metric_def Let_def
      split: sum.splits if_splits dest!: compute_tables_by_group)


text \<open>
  The constructor establishes \<open>frame_ok\<close>, and \<^verbatim>\<open>add_data\<close> and the readers keep it.
\<close>

lemma frame_ok_MetricFrame:
  assumes "MetricFrame metric y_true y_pred sensitive_features control_features sample_params streaming = Inr s"
  shows "frame_ok s"
proof (cases streaming)
  case True
  with assms have "attr_by_group s = None"
    by (auto simp: MetricFrame_def new_frame_def Let_def split: sum.splits if_splits)
  then show ?thesis by (simp add: frame_ok_def)
next
  case False
  with assms obtain u where
    "compute_metric (new_frame metric sensitive_features control_features sample_params streaming)
       (convert_to_ndarray_and_squeeze y_true) (convert_to_ndarray_and_squeeze y_pred)
       sensitive_features control_features sample_params = (Inr u, s)"
    by (auto simp: MetricFrame_def Let_def split: sum.splits if_splits prod.splits)
  then show ?thesis by (rule compute_metric_frame_ok) (simp add: new_frame_def)
qed

lemma frame_ok_add_data:
  assumes "frame_ok s"
    and "add_data s y_true y_pred sensitive_features control_features sample_params = (r, s')"
  shows "frame_ok s'"
proof (cases r)
  case (Inl e)
  with add_data_attrs [OF assms(2)] assms(1) show ?thesis
    by (auto simp: frame_ok_def split: option.splits)
next
  case (Inr u)
  with add_data_attrs [OF assms(2)] show ?thesis by (simp add: frame_ok_def)
qed

lemma frame_ok_ensure_overall:
  assumes "frame_ok s" and "ensure_overall s = (r, s')"
  shows "frame_ok s'"
proof (cases "attr_overall s")
  case None
  with assms(1) have "attr_by_group s = None" by (auto simp: frame_ok_def split: option.splits)
  with assms(2) None show ?thesis
    by (auto simp: ensure_overall_def dest: compute_streaming_metric_frame_ok)
next
  case (Some ov)
  with assms show ?thesis by (simp add: ensure_overall_def)
qed

lemma frame_ok_ensure_by_group:
  assumes "frame_ok s" and "ensure_by_group s = (r, s')"
  shows "frame_ok s'"
  using assms
  by (auto simp: ensure_by_group_def split: if_splits dest: compute_streaming_metric_frame_ok)

lemma frame_ok_sensitive_levels:
  assumes "frame_ok s" and "sensitive_levels s = (r, s')"
  shows "frame_ok s'"
proof (cases "attr_sf_names s")
  case None
  with assms(1) have "attr_by_group s = None" by (auto simp: frame_ok_def split: option.splits)
  with assms(2) None show ?thesis
    by (auto simp: sensitive_levels_def split: prod.splits sum.splits
        dest: compute_streaming_metric_frame_ok)
next
  case (Some ns)
  with assms show ?thesis by (simp add: sensitive_levels_def)
qed

lemma frame_ok_control_levels:
  assumes "frame_ok s" and "control_levels s = (r, s')"
  shows "frame_ok s'"
  using assms
  by (auto simp: control_levels_def split: prod.splits sum.splits dest: frame_ok_ensure_overall)

text \<open>
  Claim C2. On every well-formed frame, \<^verbatim>\<open>difference('between_groups')\<close>, which the
  code computes as the largest absolute difference between a by-group value and the
  group minimum of its control stratum, is \<^verbatim>\<open>group_max()\<close> minus \<^verbatim>\<open>group_min()\<close>, per
  function and per control stratum, with pandas' alignment; an error of either read is
  the error of the difference. The cells are real numbers, or absent.
\<close>

theorem difference_between_groups:
  assumes "frame_ok s"
  shows "difference s ''between_groups'' =
     (case group_max s of
        (Inl e, s1) \<Rightarrow> (Inl e, s1)
      | (Inr a, s1) \<Rightarrow>
          (case group_min s1 of
             (Inl e, s2) \<Rightarrow> (Inl e, s2)
           | (Inr b, s2) \<Rightarrow> (result_sub a b, s2)))"
proof (cases "attr_by_group s")
  case (Some bg)
  with assms have "attr_overall s \<noteq> None" by (simp add: frame_ok_def)
  then show ?thesis using Some assms by (rule difference_cached)
next
  case None
  obtain r s1 where c: "compute_streaming_metric s = (r, s1)"
    by (cases "compute_streaming_metric s")
  have ok1: "frame_ok s1" using c None by (rule compute_streaming_metric_frame_ok)
  have eb: "ensure_by_group s = (r, s1)" using c None by (simp add: ensure_by_group_def)
  show ?thesis
  proof (cases r)
    case (Inl e)
    have gx: "group_extreme agg s = (Inl e, s1)" for agg
      using eb Inl by (simp add: group_extreme_ensure_fails)
    have "difference s ''between_groups'' = (Inl e, s1)"
      using c Inl gx by (simp add: difference_def ensure_overall_def group_min_def)
    with gx show ?thesis by (simp add: group_max_def)
  next
    case (Inr u)
    from c Inr have caches: "attr_overall s1 \<noteq> None" "attr_by_group s1 \<noteq> None"
      by (auto dest: compute_streaming_metric_caches)
    then obtain bg where bg: "attr_by_group s1 = Some bg" by auto
    have gx: "group_extreme agg s = group_extreme agg s1" for agg
      using eb Inr by (simp add: group_extreme_after_ensure)
    have e1: "ensure_overall s1 = (Inr (), s1)" using caches(1) by (rule ensure_overall_cached_id)
    have "difference s ''between_groups'' = difference s1 ''between_groups''"
      using c Inr gx e1 by (simp add: difference_def ensure_overall_def group_min_def)
    moreover note difference_cached [OF caches(1) bg ok1]
    ultimately show ?thesis using gx by (simp add: group_max_def)
  qed
qed

theorem difference_between_groups_witness:
  "frame_ok stratified_frame
   \<and> fst (difference stratified_frame ''between_groups'')
       = Inr (RFrame ([[OStr ''x''], [OStr ''y'']],
                      [(''acc'', [([OStr ''x''], Some 0), ([OStr ''y''], Some (1 / 2))])]))
   \<and> fst (group_max stratified_frame)
       = Inr (RFrame ([[OStr ''x''], [OStr ''y'']],
                      [(''acc'', [([OStr ''x''], Some 1), ([OStr ''y''], Some 1)])]))
   \<and> fst (group_min stratified_frame)
       = Inr (RFrame ([[OStr ''x''], [OStr ''y'']],
                      [(''acc'', [([OStr ''x''], Some 1), ([OStr ''y''], Some (1 / 2))])]))
   \<and> difference stratified_frame ''between_groups'' =
     (case group_max stratified_frame of
        (Inl e, s1) \<Rightarrow> (Inl e, s1)
      | (Inr a, s1) \<Rightarrow>
          (case group_min s1 of
             (Inl e, s2) \<Rightarrow> (Inl e, s2)
           | (Inr b, s2) \<Rightarrow> (result_sub a b, s2)))"
proof -
  have ok: "frame_ok stratified_frame" by code_simp
  have "fst (difference stratified_frame ''between_groups'')
       = Inr (RFrame ([[OStr ''x''], [OStr ''y'']],
                      [(''acc'', [([OStr ''x''], Some 0), ([OStr ''y''], Some (1 / 2))])]))"
    by code_simp
  moreover have "fst (group_max stratified_frame)
       = Inr (RFrame ([[OStr ''x''], [OStr ''y'']],
                      [(''acc'', [([OStr ''x''], Some 1), ([OStr ''y''], Some 1)])]))"
    by code_simp
  moreover have "fst (group_min stratified_frame)
       = Inr (RFrame ([[OStr ''x''], [OStr ''y'']],
                      [(''acc'', [([OStr ''x''], Some 1), ([OStr ''y''], Some (1 / 2))])]))"
    by code_simp
  ultimately show ?thesis using ok difference_between_groups [OF ok] by simp
qed


section \<open>Group extremes and absent cells\<close>

lemma mem_present: "x \<in> set (present cs) \<longleftrightarrow> Some x \<in> set cs"
  by (induction cs) (auto split: option.splits)

lemma set_present: "set (present cs) = Option.these (set cs)"
  by (auto simp: mem_present in_these_eq)

lemma nanmax_Max:
  "nanmax = (\<lambda>cs. if Option.these (set cs) = {} then None else Some (Max (Option.these (set cs))))"
proof (rule ext)
  fix cs :: "cell list"
  show "nanmax cs = (if Option.these (set cs) = {} then None else Some (Max (Option.these (set cs))))"
  proof (cases "present cs")
    case Nil
    with set_present [of cs] show ?thesis by (simp add: nanmax_def)
  next
    case (Cons x xs)
    with set_present [of cs] have "Option.these (set cs) = set (x # xs)" by simp
    with Cons show ?thesis by (simp add: nanmax_def fold_max_Max)
  qed
qed

lemma nanmin_Min:
  "nanmin = (\<lambda>cs. if Option.these (set cs) = {} then None else Some (Min (Option.these (set cs))))"
proof (rule ext)
  fix cs :: "cell list"
  show "nanmin cs = (if Option.these (set cs) = {} then None else Some (Min (Option.these (set cs))))"
  proof (cases "present cs")
    case Nil
    with set_present [of cs] show ?thesis by (simp add: nanmin_def)
  next
    case (Cons x xs)
    with set_present [of cs] have "Option.these (set cs) = set (x # xs)" by simp
    with Cons show ?thesis by (simp add: nanmin_def fold_min_Min)
  qed
qed

lemma group_extreme_table:
  assumes ok: "frame_ok s" and bg: "attr_by_group s = Some df"
  shows "fst (group_extreme agg s) =
     (case attr_user_supplied_callable s of
        None \<Rightarrow> Inl AttributeError
      | Some usc \<Rightarrow>
          (case attr_cf_names s of
             None \<Rightarrow>
               if usc then (case snd df of
                              [] \<Rightarrow> Inl IndexError
                            | (m, col) # _ \<Rightarrow> Inr (RValue (agg (map snd col))))
               else Inr (RFuncs (map (\<lambda>(m, col). (m, agg (map snd col))) (snd df)))
           | Some cl \<Rightarrow>
               if usc then (case snd df of
                              [] \<Rightarrow> Inl IndexError
                            | (m, col) # _ \<Rightarrow>
                                Inr (RSeries (map (\<lambda>g. (g, agg (map snd (filter (\<lambda>(r, c). take (length cl) r = g) col))))
                                                  (remdups (map (\<lambda>(r, c). take (length cl) r) col)))))
               else Inr (RFrame (remdups (map (take (length cl)) (fst df)),
                                 map (\<lambda>(m, col).
                                        (m, map (\<lambda>g. (g, agg (map snd (filter (\<lambda>(r, c). take (length cl) r = g) col))))
                                                (remdups (map (\<lambda>(r, c). take (length cl) r) col))))
                                     (snd df)))))"
proof -
  from ok bg have ov: "attr_overall s \<noteq> None" and ne: "attr_cf_names s \<noteq> Some []"
    by (simp_all add: frame_ok_def)
  show ?thesis
    using ne
    by (auto simp: group_extreme_cached [OF ov bg] groupby_level_def group_series_def group_keys_def
        group_cells_def split: option.splits bool.splits list.splits)
qed

text \<open>
  Claim C4. The by-group table of a well-formed frame is a table
  \<^verbatim>\<open>_compute_dataframe_from_rows\<close> returned. In it a cell is absent exactly when the
  combined mask of its row selects no sample; every call of a metric function the
  computation added to the log was made on a mask that selects at least one sample; and
  \<^verbatim>\<open>group_max()\<close> and \<^verbatim>\<open>group_min()\<close> return, per function and per control stratum
  (the rows that agree on the control levels), the largest and the smallest of the
  present cells, and an absent value where no cell is present. The result has the shape
  the source gives it: a scalar or a Series over the strata for a single callable, a
  Series over the functions or a DataFrame for a dict.
\<close>

theorem empty_mask_cell_absent:
  assumes "compute_dataframe_from_rows func_dict y_true y_pred rows lg = (Inr df, lg')"
    and "frame_ok s" and "attr_by_group s = Some df"
  shows "(\<forall>(func_name, col) \<in> set (snd df). \<forall>(row_curr, c) \<in> set col.
            \<exists>msk. mask_from_tuple row_curr rows = Inr msk \<and> (c = None \<longleftrightarrow> True \<notin> set msk))
    \<and> (\<exists>new. lg' = lg @ new \<and> (\<forall>(func_name, m) \<in> set new. \<exists>msk. m = Some msk \<and> True \<in> set msk))
    \<and> (let tab =
           (\<lambda>agg. case attr_user_supplied_callable s of
               None \<Rightarrow> Inl AttributeError
             | Some usc \<Rightarrow>
                 (case attr_cf_names s of
                    None \<Rightarrow>
                      if usc then (case snd df of
                                     [] \<Rightarrow> Inl IndexError
                                   | (m, col) # _ \<Rightarrow> Inr (RValue (agg (map snd col))))
                      else Inr (RFuncs (map (\<lambda>(m, col). (m, agg (map snd col))) (snd df)))
                  | Some cl \<Rightarrow>
                      if usc then (case snd df of
                                     [] \<Rightarrow> Inl IndexError
                                   | (m, col) # _ \<Rightarrow>
                                       Inr (RSeries (map (\<lambda>g. (g, agg (map snd (filter (\<lambda>(r, c). take (length cl) r = g) col))))
                                                         (remdups (map (\<lambda>(r, c). take (length cl) r) col)))))
                      else Inr (RFrame (remdups (map (take (length cl)) (fst df)),
                                        map (\<lambda>(m, col).
                                               (m, map (\<lambda>g. (g, agg (map snd (filter (\<lambda>(r, c). take (length cl) r = g) col))))
                                                       (remdups (map (\<lambda>(r, c). take (length cl) r) col))))
                                            (snd df)))))
        in fst (group_max s)
             = tab (\<lambda>cs. if Option.these (set cs) = {} then None else Some (Max (Option.these (set cs))))
           \<and> fst (group_min s)
             = tab (\<lambda>cs. if Option.these (set cs) = {} then None else Some (Min (Option.these (set cs)))))"
proof -
  from assms(1) obtain idx cols where
    t: "table_columns func_dict y_true y_pred rows idx lg = (Inr cols, lg')" and df: "df = (idx, cols)"
    by (auto simp: compute_dataframe_from_rows_def split: sum.splits prod.splits)
  note sp = table_columns_spec [OF t]
  have a: "\<forall>(func_name, col) \<in> set (snd df). \<forall>(row_curr, c) \<in> set col.
            \<exists>msk. mask_from_tuple row_curr rows = Inr msk \<and> (c = None \<longleftrightarrow> True \<notin> set msk)"
    using sp df by fastforce
  have b: "\<exists>new. lg' = lg @ new \<and> (\<forall>(func_name, m) \<in> set new. \<exists>msk. m = Some msk \<and> True \<in> set msk)"
    using sp by blast
  note g = group_extreme_table [OF assms(2,3)]
  have c: "let tab =
           (\<lambda>agg. case attr_user_supplied_callable s of
               None \<Rightarrow> Inl AttributeError
             | Some usc \<Rightarrow>
                 (case attr_cf_names s of
                    None \<Rightarrow>
                      if usc then (case snd df of
                                     [] \<Rightarrow> Inl IndexError
                                   | (m, col) # _ \<Rightarrow> Inr (RValue (agg (map snd col))))
                      else Inr (RFuncs (map (\<lambda>(m, col). (m, agg (map snd col))) (snd df)))
                  | Some cl \<Rightarrow>
                      if usc then (case snd df of
                                     [] \<Rightarrow> Inl IndexError
                                   | (m, col) # _ \<Rightarrow>
                                       Inr (RSeries (map (\<lambda>g. (g, agg (map snd (filter (\<lambda>(r, c). take (length cl) r = g) col))))
                                                         (remdups (map (\<lambda>(r, c). take (length cl) r) col)))))
                      else Inr (RFrame (remdups (map (take (length cl)) (fst df)),
                                        map (\<lambda>(m, col).
                                               (m, map (\<lambda>g. (g, agg (map snd (filter (\<lambda>(r, c). take (length cl) r = g) col))))
                                                       (remdups (map (\<lambda>(r, c). take (length cl) r) col))))
                                            (snd df)))))
        in fst (group_max s)
             = tab (\<lambda>cs. if Option.these (set cs) = {} then None else Some (Max (Option.these (set cs))))
           \<and> fst (group_min s)
             = tab (\<lambda>cs. if Option.these (set cs) = {} then None else Some (Min (Option.these (set cs))))"
    unfolding Let_def group_max_def group_min_def g
    by (simp only: nanmax_Max nanmin_Min simp_thms)
  from a b c show ?thesis by blast
qed

theorem empty_mask_cell_absent_witness:
  "compute_dataframe_from_rows example_func_dict
       (OArray [4] [OInt 0, OInt 1, OInt 0, OInt 1]) (OArray [4] [OInt 0, OInt 1, OInt 1, OInt 1])
       example_rows []
     = (Inr ([[OStr ''x'', OStr ''a''], [OStr ''x'', OStr ''b''], [OStr ''y'', OStr ''a''], [OStr ''y'', OStr ''b'']],
             [(''acc'', [([OStr ''x'', OStr ''a''], Some 1), ([OStr ''x'', OStr ''b''], None),
                         ([OStr ''y'', OStr ''a''], Some 1), ([OStr ''y'', OStr ''b''], Some (1 / 2))])]),
        [(''acc'', Some [True, False, False, False]), (''acc'', Some [False, True, False, False]),
         (''acc'', Some [False, False, True, True])])
   \<and> frame_ok stratified_frame
   \<and> attr_by_group stratified_frame
     = Some ([[OStr ''x'', OStr ''a''], [OStr ''x'', OStr ''b''], [OStr ''y'', OStr ''a''], [OStr ''y'', OStr ''b'']],
             [(''acc'', [([OStr ''x'', OStr ''a''], Some 1), ([OStr ''x'', OStr ''b''], None),
                         ([OStr ''y'', OStr ''a''], Some 1), ([OStr ''y'', OStr ''b''], Some (1 / 2))])])
   \<and> mask_from_tuple [OStr ''x'', OStr ''b''] example_rows = Inr [False, False, False, False]
   \<and> fst (group_max stratified_frame)
       = Inr (RFrame ([[OStr ''x''], [OStr ''y'']],
                      [(''acc'', [([OStr ''x''], Some 1), ([OStr ''y''], Some 1)])]))
   \<and> fst (group_min stratified_frame)
       = Inr (RFrame ([[OStr ''x''], [OStr ''y'']],
                      [(''acc'', [([OStr ''x''], Some 1), ([OStr ''y''], Some (1 / 2))])]))"
proof -
  let ?df = "([[OStr ''x'', OStr ''a''], [OStr ''x'', OStr ''b''], [OStr ''y'', OStr ''a''], [OStr ''y'', OStr ''b'']],
             [(''acc'', [([OStr ''x'', OStr ''a''], Some (1::real)), ([OStr ''x'', OStr ''b''], None),
                         ([OStr ''y'', OStr ''a''], Some 1), ([OStr ''y'', OStr ''b''], Some (1 / 2))])])"
  have e: "compute_dataframe_from_rows example_func_dict
       (OArray [4] [OInt 0, OInt 1, OInt 0, OInt 1]) (OArray [4] [OInt 0, OInt 1, OInt 1, OInt 1])
       example_rows []
     = (Inr ?df,
        [(''acc'', Some [True, False, False, False]), (''acc'', Some [False, True, False, False]),
         (''acc'', Some [False, False, True, True])])"
    by code_simp
  have ok: "frame_ok stratified_frame" by code_simp
  have bg: "attr_by_group stratified_frame = Some ?df" by code_simp
  have usc: "attr_user_supplied_callable stratified_frame = Some False" by code_simp
  have cf: "attr_cf_names stratified_frame = Some [''control_feature_0'']" by code_simp
  have m: "mask_from_tuple [OStr ''x'', OStr ''b''] example_rows = Inr [False, False, False, False]"
    by code_simp
  from empty_mask_cell_absent [OF e ok bg]
  have "fst (group_max stratified_frame)
       = Inr (RFrame ([[OStr ''x''], [OStr ''y'']],
                      [(''acc'', [([OStr ''x''], Some 1), ([OStr ''y''], Some 1)])]))
   \<and> fst (group_min stratified_frame)
       = Inr (RFrame ([[OStr ''x''], [OStr ''y'']],
                      [(''acc'', [([OStr ''x''], Some 1), ([OStr ''y''], Some (1 / 2))])]))"
    by (simp add: usc cf Let_def)
  with e ok bg m show ?thesis by simp
qed


section \<open>The ratio between groups\<close>

lemma ratio_reads:
  "ratio s ''between_groups'' =
     (case group_min s of
        (Inl e, s1) \<Rightarrow> (Inl e, s1)
      | (Inr a, s1) \<Rightarrow>
          (case group_max s1 of
             (Inl e, s2) \<Rightarrow> (Inl e, s2)
           | (Inr b, s2) \<Rightarrow> (result_div a b, s2)))"
proof (cases "ensure_by_group s")
  case (Pair r s1)
  show ?thesis
  proof (cases r)
    case (Inl e)
    with Pair have "group_min s = (Inl e, s1)"
      by (simp add: group_min_def group_extreme_ensure_fails)
    with Pair Inl show ?thesis by (simp add: ratio_def)
  next
    case (Inr u)
    with Pair have "group_min s = group_min s1"
      by (simp add: group_min_def group_extreme_after_ensure)
    with Pair Inr show ?thesis by (simp add: ratio_def)
  qed
qed

text \<open>The quotient of two tables with the same labels, cell by cell.\<close>

lemma quotient_value:
  "result_div (RValue x) (RValue y) = Inr (map_result div_cell (RValue (x, y)))"
  by (simp add: result_div_def)

lemma quotient_funcs:
  assumes "distinct (map fst cols)"
  shows "result_div (RFuncs (map (\<lambda>(m, col). (m, f col)) cols)) (RFuncs (map (\<lambda>(m, col). (m, g col)) cols))
       = Inr (map_result div_cell (RFuncs (map (\<lambda>(m, col). (m, (f col, g col))) cols)))"
proof -
  have "lookup_cell (map (\<lambda>(m, col). (m, g col)) cols) (fst x) = g (snd x)" if "x \<in> set cols" for x
    using that assms lookup_column [of cols "fst x" "snd x" g] by simp
  then show ?thesis by (simp add: result_div_def split_def)
qed

lemma quotient_series:
  assumes "\<forall>(r, c) \<in> set col. n \<le> length r"
  shows "result_div (RSeries (group_series f n col)) (RSeries (group_series g n col))
       = Inr (map_result div_cell
                (RSeries (map (\<lambda>k. (k, (f (group_cells n k col), g (group_cells n k col)))) (group_keys n col))))"
  by (simp add: result_div_def align_groups [OF assms])

lemma quotient_frame:
  assumes "distinct (map fst cols)" and "\<forall>(m, col) \<in> set cols. \<forall>(r, c) \<in> set col. n \<le> length r"
  shows "result_div (RFrame (groupby_level f n (idx, cols))) (RFrame (groupby_level g n (idx, cols)))
       = Inr (map_result div_cell
                (RFrame (remdups (map (take n) idx),
                   map (\<lambda>(m, col). (m, map (\<lambda>k. (k, (f (group_cells n k col), g (group_cells n k col))))
                                            (group_keys n col))) cols)))"
proof -
  have l: "map_of (map (\<lambda>(m, col). (m, group_series g n col)) cols) (fst x) = Some (group_series g n (snd x))"
    if "x \<in> set cols" for x
    using that assms(1) map_of_column [of cols "fst x" "snd x" "group_series g n"] by simp
  have a: "align_series (group_series f n (snd x)) (group_series g n (snd x))
         = map (\<lambda>k. (k, (f (group_cells n k (snd x)), g (group_cells n k (snd x))))) (group_keys n (snd x))"
    if "x \<in> set cols" for x
    using that assms(2) by (intro align_groups) (force simp: split_def)
  show ?thesis
    apply (simp add: result_div_def groupby_level_def split_def)
    apply (intro ballI)
    apply (simp add: l [unfolded split_def] a)
    done
qed

lemma div_cell_unfold:
  "div_cell = (\<lambda>(a, b). case a of None \<Rightarrow> None | Some x \<Rightarrow>
      (case b of None \<Rightarrow> None | Some y \<Rightarrow>
         if y \<noteq> 0 then Some (Finite (x / y))
         else if 0 < x then Some PInf else if x < 0 then Some NInf else None))"
  by (auto simp: div_cell_def fun_eq_iff split: option.splits)

lemma ratio_cached:
  assumes ov: "attr_overall s \<noteq> None" and bg: "attr_by_group s = Some bg" and ok: "frame_ok s"
  shows "\<exists>P. fst (group_min s) = map_sum id (map_result fst) P
           \<and> fst (group_max s) = map_sum id (map_result snd) P
           \<and> fst (ratio s ''between_groups'') = map_sum id (map_result div_cell) P"
proof -
  obtain idx cols where b: "bg = (idx, cols)" by (cases bg)
  let ?n = "case attr_cf_names s of None \<Rightarrow> 0 | Some cl \<Rightarrow> length cl"
  from ok bg b have t: "table_ok ?n (idx, cols)" and ne: "attr_cf_names s \<noteq> Some []"
    by (simp_all add: frame_ok_def)
  note d = table_ok_columns [OF t]
  note gx = group_extreme_cached [OF ov bg]
  note defs = ratio_reads group_min_def group_max_def gx b
  show ?thesis
  proof (cases "attr_user_supplied_callable s")
    case None
    then show ?thesis
      by (intro exI [where x = "Inl AttributeError"]) (simp add: defs)
  next
    case usc: (Some usc)
    show ?thesis
    proof (cases "attr_cf_names s")
      case None
      show ?thesis
      proof (cases usc)
        case True
        show ?thesis
        proof (cases cols)
          case Nil
          with usc None True show ?thesis
            by (intro exI [where x = "Inl IndexError"]) (simp add: defs)
        next
          case (Cons p rest)
          obtain m col where p: "p = (m, col)" by (cases p)
          from usc None True Cons p show ?thesis
            by (intro exI [where x = "Inr (RValue (nanmin (map snd col), nanmax (map snd col)))"])
               (simp add: defs quotient_value)
        qed
      next
        case False
        with usc None show ?thesis
          by (intro exI [where x = "Inr (RFuncs (map (\<lambda>(m, col). (m, (nanmin (map snd col), nanmax (map snd col)))) cols))"])
             (simp add: defs quotient_funcs [OF d(1)], simp add: split_def comp_def)
      qed
    next
      case (Some cl)
      with ne have cl: "cl \<noteq> []" by simp
      from d(2) Some have len: "\<forall>(m, col) \<in> set cols. \<forall>(r, c) \<in> set col. length cl \<le> length r" by simp
      show ?thesis
      proof (cases usc)
        case True
        show ?thesis
        proof (cases cols)
          case Nil
          with usc Some True cl show ?thesis
            by (intro exI [where x = "Inl IndexError"]) (simp add: defs groupby_level_def)
        next
          case (Cons p rest)
          obtain m col where p: "p = (m, col)" by (cases p)
          from len Cons p have l: "\<forall>(r, c) \<in> set col. length cl \<le> length r" by simp
          from usc Some True cl Cons p show ?thesis
            by (intro exI [where x = "Inr (RSeries (map (\<lambda>k. (k, (nanmin (group_cells (length cl) k col),
                                                               nanmax (group_cells (length cl) k col))))
                                                   (group_keys (length cl) col)))"])
               (simp add: defs groupby_level_def quotient_series [OF l], simp add: group_series_def comp_def)
        qed
      next
        case False
        with usc Some cl show ?thesis
          by (intro exI [where x = "Inr (RFrame (remdups (map (take (length cl)) idx),
                   map (\<lambda>(m, col). (m, map (\<lambda>k. (k, (nanmin (group_cells (length cl) k col),
                                                       nanmax (group_cells (length cl) k col))))
                                            (group_keys (length cl) col))) cols))"])
             (simp add: defs quotient_frame [OF d(1) len], simp add: groupby_level_def group_series_def split_def comp_def)
      qed
    qed
  qed
qed

text \<open>
  Claim C3. On every well-formed frame, \<^verbatim>\<open>group_min()\<close>, \<^verbatim>\<open>group_max()\<close> and
  \<^verbatim>\<open>ratio('between_groups')\<close> have the same shape and the same labels, one cell per
  metric function and control stratum, and each cell of the ratio is the cell of
  \<^verbatim>\<open>group_min()\<close> divided by the cell of \<^verbatim>\<open>group_max()\<close> under the same label: the
  three are the two projections and the cell-wise quotient of one table of pairs. An
  error of the reads is the error of all three. The quotient is that of NumPy floats:
  absent when a cell is absent, infinite with the sign of the numerator over zero,
  absent for zero over zero.
\<close>

theorem ratio_between_groups:
  assumes "frame_ok s"
  shows "\<exists>P. fst (group_min s) = map_sum id (map_result fst) P
           \<and> fst (group_max s) = map_sum id (map_result snd) P
           \<and> fst (ratio s ''between_groups'')
               = map_sum id (map_result
                   (\<lambda>(a, b). case a of
                                None \<Rightarrow> None
                              | Some x \<Rightarrow>
                                  (case b of
                                     None \<Rightarrow> None
                                   | Some y \<Rightarrow>
                                       if y \<noteq> 0 then Some (Finite (x / y))
                                       else if 0 < x then Some PInf
                                       else if x < 0 then Some NInf
                                       else None))) P"
proof -
  have cached: "\<exists>P. fst (group_min t) = map_sum id (map_result fst) P
           \<and> fst (group_max t) = map_sum id (map_result snd) P
           \<and> fst (ratio t ''between_groups'') = map_sum id (map_result div_cell) P"
    if "frame_ok t" "attr_by_group t = Some bg" for t bg
  proof -
    from that have "attr_overall t \<noteq> None" by (simp add: frame_ok_def)
    then show ?thesis using that(2,1) by (rule ratio_cached)
  qed
  have "\<exists>P. fst (group_min s) = map_sum id (map_result fst) P
           \<and> fst (group_max s) = map_sum id (map_result snd) P
           \<and> fst (ratio s ''between_groups'') = map_sum id (map_result div_cell) P"
  proof (cases "attr_by_group s")
    case (Some bg)
    with assms show ?thesis by (rule cached)
  next
    case None
    obtain r s1 where c: "compute_streaming_metric s = (r, s1)"
      by (cases "compute_streaming_metric s")
    have ok1: "frame_ok s1" using c None by (rule compute_streaming_metric_frame_ok)
    have eb: "ensure_by_group s = (r, s1)" using c None by (simp add: ensure_by_group_def)
    show ?thesis
    proof (cases r)
      case (Inl e)
      have gx: "group_extreme agg s = (Inl e, s1)" for agg
        using eb Inl by (simp add: group_extreme_ensure_fails)
      show ?thesis
        by (intro exI [where x = "Inl e"]) (simp add: ratio_reads group_min_def group_max_def gx)
    next
      case (Inr u)
      from c Inr have "attr_by_group s1 \<noteq> None"
        by (auto dest: compute_streaming_metric_caches)
      then obtain bg where bg: "attr_by_group s1 = Some bg" by auto
      have gx: "group_extreme agg s = group_extreme agg s1" for agg
        using eb Inr by (simp add: group_extreme_after_ensure)
      have "ratio s ''between_groups'' = ratio s1 ''between_groups''"
        by (simp add: ratio_reads group_min_def group_max_def gx)
      with cached [OF ok1 bg] gx show ?thesis by (simp add: group_min_def group_max_def)
    qed
  qed
  then show ?thesis by (simp only: div_cell_unfold)
qed

theorem ratio_between_groups_witness:
  "frame_ok skewed_frame
   \<and> fst (group_min skewed_frame)
       = Inr (RFrame ([[OStr ''x''], [OStr ''y''], [OStr ''z'']],
                [(''acc'', [([OStr ''x''], Some (1 / 4)), ([OStr ''y''], Some 0), ([OStr ''z''], Some 0)]),
                 (''err'', [([OStr ''x''], Some (1 / 2)), ([OStr ''y''], Some (- 1)), ([OStr ''z''], Some (- 1))])]))
   \<and> fst (group_max skewed_frame)
       = Inr (RFrame ([[OStr ''x''], [OStr ''y''], [OStr ''z'']],
                [(''acc'', [([OStr ''x''], Some (1 / 2)), ([OStr ''y''], Some 1), ([OStr ''z''], Some 0)]),
                 (''err'', [([OStr ''x''], Some (3 / 4)), ([OStr ''y''], Some 0), ([OStr ''z''], Some (- 1))])]))
   \<and> fst (ratio skewed_frame ''between_groups'')
       = Inr (RFrame ([[OStr ''x''], [OStr ''y''], [OStr ''z'']],
                [(''acc'', [([OStr ''x''], Some (Finite (1 / 2))), ([OStr ''y''], Some (Finite 0)), ([OStr ''z''], None)]),
                 (''err'', [([OStr ''x''], Some (Finite (2 / 3))), ([OStr ''y''], Some NInf),
                            ([OStr ''z''], Some (Finite 1))])]))
   \<and> (\<exists>P. fst (group_min skewed_frame) = map_sum id (map_result fst) P
           \<and> fst (group_max skewed_frame) = map_sum id (map_result snd) P
           \<and> fst (ratio skewed_frame ''between_groups'')
               = map_sum id (map_result
                   (\<lambda>(a, b). case a of
                                None \<Rightarrow> None
                              | Some x \<Rightarrow>
                                  (case b of
                                     None \<Rightarrow> None
                                   | Some y \<Rightarrow>
                                       if y \<noteq> 0 then Some (Finite (x / y))
                                       else if 0 < x then Some PInf
                                       else if x < 0 then Some NInf
                                       else None))) P)"
proof -
  have ok: "frame_ok skewed_frame" by code_simp
  have "fst (group_min skewed_frame)
       = Inr (RFrame ([[OStr ''x''], [OStr ''y''], [OStr ''z'']],
                [(''acc'', [([OStr ''x''], Some (1 / 4)), ([OStr ''y''], Some 0), ([OStr ''z''], Some 0)]),
                 (''err'', [([OStr ''x''], Some (1 / 2)), ([OStr ''y''], Some (- 1)), ([OStr ''z''], Some (- 1))])]))"
    by code_simp
  moreover have "fst (group_max skewed_frame)
       = Inr (RFrame ([[OStr ''x''], [OStr ''y''], [OStr ''z'']],
                [(''acc'', [([OStr ''x''], Some (1 / 2)), ([OStr ''y''], Some 1), ([OStr ''z''], Some 0)]),
                 (''err'', [([OStr ''x''], Some (3 / 4)), ([OStr ''y''], Some 0), ([OStr ''z''], Some (- 1))])]))"
    by code_simp
  moreover have "fst (ratio skewed_frame ''between_groups'')
       = Inr (RFrame ([[OStr ''x''], [OStr ''y''], [OStr ''z'']],
                [(''acc'', [([OStr ''x''], Some (Finite (1 / 2))), ([OStr ''y''], Some (Finite 0)), ([OStr ''z''], None)]),
                 (''err'', [([OStr ''x''], Some (Finite (2 / 3))), ([OStr ''y''], Some NInf),
                            ([OStr ''z''], Some (Finite 1))])]))"
    by code_simp
  ultimately show ?thesis using ok ratio_between_groups [OF ok] by blast
qed


section \<open>Streaming and direct computation\<close>

text \<open>
  Claim C1. One batch of two samples whose sensitive features are a pandas Series, an
  input the docstring of \<^verbatim>\<open>add_data\<close> lists and the constructor computes on. The
  streaming frame accepts the batch, and every read of it raises: \<^verbatim>\<open>_concat_batches\<close>
  has a branch for arrays, lists, DataFrames and dicts and none for a Series. The frame
  built at once on the same data returns the overall accuracy.
\<close>

theorem streaming_series_rejected:
  "MetricFrame (Callable ''accuracy'' accuracy) (OList []) (OList []) (OList []) ONone ONone True
     = Inr empty_stream
   \<and> fst (add_data empty_stream (OList [OInt 0, OInt 1]) (OList [OInt 0, OInt 1])
            (OSeries ONone [OStr ''a'', OStr ''b'']) ONone ONone) = Inr ()
   \<and> fst (overall (snd (add_data empty_stream (OList [OInt 0, OInt 1]) (OList [OInt 0, OInt 1])
            (OSeries ONone [OStr ''a'', OStr ''b'']) ONone ONone))) = Inl CantConcatenate
   \<and> fst (by_group (snd (add_data empty_stream (OList [OInt 0, OInt 1]) (OList [OInt 0, OInt 1])
            (OSeries ONone [OStr ''a'', OStr ''b'']) ONone ONone))) = Inl CantConcatenate
   \<and> (case MetricFrame (Callable ''accuracy'' accuracy) (OList [OInt 0, OInt 1]) (OList [OInt 0, OInt 1])
              (OSeries ONone [OStr ''a'', OStr ''b'']) ONone ONone False of
         Inl e \<Rightarrow> False
       | Inr d \<Rightarrow> fst (overall d) = Inr (RValue (Some 1))
                 \<and> fst (by_group d) = Inr (RSeries [([OStr ''a''], Some 1), ([OStr ''b''], Some 1)]))"
proof -
  have "MetricFrame (Callable ''accuracy'' accuracy) (OList []) (OList []) (OList []) ONone ONone True
     = Inr empty_stream"
    by (simp add: MetricFrame_def empty_stream_def)
  moreover have "fst (add_data empty_stream (OList [OInt 0, OInt 1]) (OList [OInt 0, OInt 1])
            (OSeries ONone [OStr ''a'', OStr ''b'']) ONone ONone) = Inr ()" by code_simp
  moreover have "fst (overall (snd (add_data empty_stream (OList [OInt 0, OInt 1]) (OList [OInt 0, OInt 1])
            (OSeries ONone [OStr ''a'', OStr ''b'']) ONone ONone))) = Inl CantConcatenate" by code_simp
  moreover have "fst (by_group (snd (add_data empty_stream (OList [OInt 0, OInt 1]) (OList [OInt 0, OInt 1])
            (OSeries ONone [OStr ''a'', OStr ''b'']) ONone ONone))) = Inl CantConcatenate" by code_simp
  moreover have "case MetricFrame (Callable ''accuracy'' accuracy) (OList [OInt 0, OInt 1]) (OList [OInt 0, OInt 1])
              (OSeries ONone [OStr ''a'', OStr ''b'']) ONone ONone False of
         Inl e \<Rightarrow> False
       | Inr d \<Rightarrow> fst (overall d) = Inr (RValue (Some 1))
                 \<and> fst (by_group d) = Inr (RSeries [([OStr ''a''], Some 1), ([OStr ''b''], Some 1)])"
    by code_simp
  ultimately show ?thesis by simp
qed

text \<open>
  The same divergence with a dict of metrics and the nested sample parameters its
  docstring asks for: \<^verbatim>\<open>add_data\<close> checks the length of the labels against
  \<^verbatim>\<open>sample_params.values()\<close>, whose members are the inner dicts, one key long, and
  refuses the batch the constructor computes on.
\<close>

lemma streaming_nested_params_rejected:
  "(case MetricFrame (MetricDict [(''acc'', accuracy)]) (OList []) (OList []) (OList []) ONone ONone True of
      Inl e \<Rightarrow> False
    | Inr s \<Rightarrow>
        fst (add_data s (OList [OInt 0, OInt 1]) (OList [OInt 0, OInt 1]) (OList [OStr ''a'', OStr ''b''])
               ONone (ODict [(OStr ''acc'', ODict [(OStr ''sample_weight'', OList [OInt 1, OInt 2])])]))
          = Inl InconsistentLength)
   \<and> (case MetricFrame (MetricDict [(''acc'', accuracy)]) (OList [OInt 0, OInt 1]) (OList [OInt 0, OInt 1])
              (OList [OStr ''a'', OStr ''b'']) ONone
              (ODict [(OStr ''acc'', ODict [(OStr ''sample_weight'', OList [OInt 1, OInt 2])])]) False of
         Inl e \<Rightarrow> False
       | Inr d \<Rightarrow> fst (overall d) = Inr (RFuncs [(''acc'', Some 1)]))"
proof -
  have "case MetricFrame (MetricDict [(''acc'', accuracy)]) (OList []) (OList []) (OList []) ONone ONone True of
      Inl e \<Rightarrow> False
    | Inr s \<Rightarrow>
        fst (add_data s (OList [OInt 0, OInt 1]) (OList [OInt 0, OInt 1]) (OList [OStr ''a'', OStr ''b''])
               ONone (ODict [(OStr ''acc'', ODict [(OStr ''sample_weight'', OList [OInt 1, OInt 2])])]))
          = Inl InconsistentLength"
    by code_simp
  moreover have "case MetricFrame (MetricDict [(''acc'', accuracy)]) (OList [OInt 0, OInt 1]) (OList [OInt 0, OInt 1])
              (OList [OStr ''a'', OStr ''b'']) ONone
              (ODict [(OStr ''acc'', ODict [(OStr ''sample_weight'', OList [OInt 1, OInt 2])])]) False of
         Inl e \<Rightarrow> False
       | Inr d \<Rightarrow> fst (overall d) = Inr (RFuncs [(''acc'', Some 1)])"
    by code_simp
  ultimately show ?thesis by simp
qed

end
